theory Spec2Isabelle
  imports Complex_Main "HOL-Library.Sublist" "HOL-Library.Multiset"
begin

section \<open>Data model\<close>

text \<open>
  The context selector (\<^verbatim>\<open>dynamic_context_selector.py\<close>) works on Python dictionaries
  keyed by source name. A dictionary whose iteration order matters is an association list
  in insertion order (its keys are distinct, as a dictionary's are); a dictionary that is
  only looked up is a partial map. Python floats are modelled as exact rationals: the
  priority weights, the normalised weights and the products with the budget are computed
  without rounding error, and \<^verbatim>\<open>int(x)\<close> on a float is truncation toward zero.
  Exceptions are values of the type \<open>error\<close>.
\<close>

type_synonym source = string

datatype error = KeyError | ZeroDivisionError

text \<open>\<^verbatim>\<open>int(x)\<close> of a float: the integer part, rounded toward zero.\<close>

definition py_int :: "rat \<Rightarrow> int" where
  "py_int x = (if 0 \<le> x then \<lfloor>x\<rfloor> else \<lceil>x\<rceil>)"

text \<open>\<^verbatim>\<open>x / y\<close> on floats raises \<^verbatim>\<open>ZeroDivisionError\<close> when \<open>y\<close> is zero.\<close>

definition py_div :: "rat \<Rightarrow> rat \<Rightarrow> error + rat" where
  "py_div x y = (if y = 0 then Inl ZeroDivisionError else Inr (x / y))"

text \<open>
  \<^verbatim>\<open>max(d, key=d.get)\<close> on a non-empty dictionary: the first key, in iteration order,
  whose value is maximal. \<open>max_key_from k v kvs\<close> continues the scan of \<open>kvs\<close> with
  \<open>k\<close> as the best key so far and \<open>v\<close> as its value.
\<close>

fun max_key_from :: "source \<Rightarrow> rat \<Rightarrow> (source \<times> rat) list \<Rightarrow> source" where
  "max_key_from best bv [] = best"
| "max_key_from best bv ((k, v) # kvs) =
     (if bv < v then max_key_from k v kvs else max_key_from best bv kvs)"

section \<open>Token budget allocator\<close>

text \<open>
  \<^verbatim>\<open>_allocate_tokens(available_tokens, priorities, initial_tokens)\<close>. The dictionary
  \<^verbatim>\<open>allocation\<close> has the keys of \<^verbatim>\<open>priorities\<close>, in their order, from the first pass
  on; it is modelled as the function from a key to its current value, and turned into
  an association list over the keys of \<^verbatim>\<open>priorities\<close> when the function returns.
\<close>

text \<open>
  \<^verbatim>\<open>{k: v / total_priority for k, v in active_priorities.items()}\<close>: the first
  division raises when the total is zero.
\<close>

fun normalize :: "rat \<Rightarrow> (source \<times> rat) list \<Rightarrow> error + (source \<times> rat) list" where
  "normalize total_priority [] = Inr []"
| "normalize total_priority ((k, v) # kvs) =
     (case py_div v total_priority of
        Inl e \<Rightarrow> Inl e
      | Inr w \<Rightarrow>
          (case normalize total_priority kvs of
             Inl e \<Rightarrow> Inl e
           | Inr ws \<Rightarrow> Inr ((k, w) # ws)))"

text \<open>The proportional pass: \<^verbatim>\<open>int(normalized_priorities[source] * available_tokens)\<close>
  for an active source, 0 for any other.\<close>

definition proportional :: "int \<Rightarrow> (source \<times> rat) list \<Rightarrow> source \<Rightarrow> int" where
  "proportional available_tokens normalized_priorities source =
     (case map_of normalized_priorities source of
        Some w \<Rightarrow> py_int (w * of_int available_tokens)
      | None \<Rightarrow> 0)"

text \<open>The rounding adjustment: the difference between the budget and the sum of the
  first pass goes to the active source of largest priority.\<close>

definition adjust ::
  "int \<Rightarrow> (source \<times> rat) list \<Rightarrow> (source \<times> rat) list \<Rightarrow> (source \<Rightarrow> int) \<Rightarrow> source \<Rightarrow> int"
where
  "adjust available_tokens priorities active_priorities allocation =
     (let adjustment = available_tokens - sum_list (map (\<lambda>(k, v). allocation k) priorities)
      in case active_priorities of
           [] \<Rightarrow> allocation
         | (k0, v0) # rest \<Rightarrow>
             if adjustment \<noteq> 0
             then (let max_priority_source = max_key_from k0 v0 rest
                   in allocation(max_priority_source :=
                        allocation max_priority_source + adjustment))
             else allocation)"

text \<open>Lines 540 to 557: normalisation, proportional pass and rounding adjustment, on the
  active priorities and the budget.\<close>

definition first_pass ::
  "int \<Rightarrow> (source \<times> rat) list \<Rightarrow> (source \<times> rat) list \<Rightarrow> error + (source \<Rightarrow> int)"
where
  "first_pass available_tokens priorities active_priorities =
     (case normalize (sum_list (map snd active_priorities)) active_priorities of
        Inl e \<Rightarrow> Inl e
      | Inr normalized_priorities \<Rightarrow>
          Inr (adjust available_tokens priorities active_priorities
                 (proportional available_tokens normalized_priorities)))"

text \<open>
  The inner loop of the redistribution: each candidate, in order, receives
  \<^verbatim>\<open>int((priority / total_candidate_priority) * excess)\<close> of the excess that is left
  when its turn comes.
\<close>

fun distribute ::
  "rat \<Rightarrow> (source \<times> rat) list \<Rightarrow> (source \<Rightarrow> int) \<Rightarrow> int \<Rightarrow> error + (source \<Rightarrow> int) \<times> int"
where
  "distribute total_candidate_priority [] allocation excess = Inr (allocation, excess)"
| "distribute total_candidate_priority ((candidate, priority) # cs) allocation excess =
     (case py_div priority total_candidate_priority of
        Inl e \<Rightarrow> Inl e
      | Inr w \<Rightarrow>
          (let share = py_int (w * of_int excess)
           in distribute total_candidate_priority cs
                (allocation(candidate := allocation candidate + share)) (excess - share)))"

text \<open>The candidates of a clipped source: the other active sources whose allocation is
  below their initial tokens.\<close>

definition candidates_of ::
  "(source \<times> rat) list \<Rightarrow> (source \<Rightarrow> int) \<Rightarrow> source \<Rightarrow> (source \<Rightarrow> int) \<Rightarrow> (source \<times> rat) list"
where
  "candidates_of active_priorities initial_tokens source allocation =
     filter (\<lambda>(k, v). k \<noteq> source \<and> allocation k < initial_tokens k) active_priorities"

text \<open>The redistribution of the excess of one clipped source (lines 566 to 582);
  \<open>allocation\<close> already holds the clipped value of \<open>source\<close>.\<close>

definition redistribute ::
  "(source \<times> rat) list \<Rightarrow> (source \<Rightarrow> int) \<Rightarrow> source \<Rightarrow> (source \<Rightarrow> int) \<Rightarrow> int \<Rightarrow>
   error + (source \<Rightarrow> int)"
where
  "redistribute active_priorities initial_tokens source allocation excess =
     (case candidates_of active_priorities initial_tokens source allocation of
        [] \<Rightarrow> Inr allocation
      | (k0, v0) # rest \<Rightarrow>
          (case distribute (sum_list (map snd ((k0, v0) # rest))) ((k0, v0) # rest)
                  allocation excess of
             Inl e \<Rightarrow> Inl e
           | Inr (allocation', excess') \<Rightarrow>
               if 0 < excess'
               then (let max_candidate = max_key_from k0 v0 rest
                     in Inr (allocation'(max_candidate := allocation' max_candidate + excess')))
               else Inr allocation'))"

text \<open>
  The cap loop \<^verbatim>\<open>for source, tokens in allocation.items()\<close> (lines 560 to 582). The
  items view is live: \<open>tokens\<close> is the value of \<open>source\<close> when the loop reaches it,
  after the redistributions of the sources before it.
\<close>

fun enforce_caps ::
  "(source \<times> rat) list \<Rightarrow> (source \<Rightarrow> int) \<Rightarrow> source list \<Rightarrow> (source \<Rightarrow> int) \<Rightarrow>
   error + (source \<Rightarrow> int)"
where
  "enforce_caps active_priorities initial_tokens [] allocation = Inr allocation"
| "enforce_caps active_priorities initial_tokens (source # rest) allocation =
     (let tokens = allocation source
      in if initial_tokens source < tokens
         then (case redistribute active_priorities initial_tokens source
                      (allocation(source := initial_tokens source))
                      (tokens - initial_tokens source) of
                 Inl e \<Rightarrow> Inl e
               | Inr allocation' \<Rightarrow> enforce_caps active_priorities initial_tokens rest allocation')
         else enforce_caps active_priorities initial_tokens rest allocation)"

text \<open>The sources with content: \<^verbatim>\<open>{k: v for k, v in priorities.items() if initial_tokens[k] > 0}\<close>.\<close>

definition active_of :: "(source \<times> rat) list \<Rightarrow> (source \<Rightarrow> int) \<Rightarrow> (source \<times> rat) list" where
  "active_of priorities initial_tokens = filter (\<lambda>(k, v). 0 < initial_tokens k) priorities"

text \<open>The body of the function once every key of \<^verbatim>\<open>priorities\<close> has been found in
  \<^verbatim>\<open>initial_tokens\<close>.\<close>

definition allocate ::
  "int \<Rightarrow> (source \<times> rat) list \<Rightarrow> (source \<Rightarrow> int) \<Rightarrow> error + (source \<times> int) list"
where
  "allocate available_tokens priorities initial_tokens =
     (let active_priorities = active_of priorities initial_tokens
      in if active_priorities = [] then Inr (map (\<lambda>(k, v). (k, 0)) priorities)
         else
           (case first_pass available_tokens priorities active_priorities of
              Inl e \<Rightarrow> Inl e
            | Inr allocation \<Rightarrow>
                (case enforce_caps active_priorities initial_tokens (map fst priorities)
                        allocation of
                   Inl e \<Rightarrow> Inl e
                 | Inr allocation' \<Rightarrow> Inr (map (\<lambda>(k, v). (k, allocation' k)) priorities))))"

text \<open>
  \<^verbatim>\<open>_allocate_tokens\<close>. The first statement reads \<^verbatim>\<open>initial_tokens[k]\<close> for every key
  of \<^verbatim>\<open>priorities\<close> and raises \<^verbatim>\<open>KeyError\<close> at a missing one; every later lookup is at
  one of these keys.
\<close>

definition allocate_tokens ::
  "int \<Rightarrow> (source \<times> rat) list \<Rightarrow> (source \<rightharpoonup> int) \<Rightarrow> error + (source \<times> int) list"
where
  "allocate_tokens available_tokens priorities initial_tokens =
     (if list_ex (\<lambda>(k, v). initial_tokens k = None) priorities then Inl KeyError
      else allocate available_tokens priorities (\<lambda>k. the (initial_tokens k)))"

text \<open>\<^verbatim>\<open>_get_priorities_by_objective\<close>: the priority matrix, with the row of
  \<^verbatim>\<open>informative\<close> for an objective it does not list.\<close>

definition informative_priorities :: "(source \<times> rat) list" where
  "informative_priorities =
     [(''chunks'', 85 / 100), (''product_guidelines'', 15 / 100),
      (''design_guidelines'', 0), (''benchmarks'', 0), (''team_objectives'', 0)]"

definition get_priorities_by_objective :: "string \<Rightarrow> (source \<times> rat) list" where
  "get_priorities_by_objective objective =
     (if objective = ''informative'' then informative_priorities
      else if objective = ''hypothesis'' then
        [(''chunks'', 5 / 10), (''product_guidelines'', 25 / 100),
         (''design_guidelines'', 25 / 100), (''benchmarks'', 0), (''team_objectives'', 0)]
      else if objective = ''benchmark'' then
        [(''chunks'', 5 / 10), (''product_guidelines'', 15 / 100),
         (''design_guidelines'', 25 / 100), (''benchmarks'', 1 / 10), (''team_objectives'', 0)]
      else if objective = ''objectives'' then
        [(''chunks'', 5 / 10), (''product_guidelines'', 25 / 100),
         (''design_guidelines'', 0), (''benchmarks'', 0), (''team_objectives'', 25 / 100)]
      else informative_priorities)"

text \<open>A dictionary literal of initial token counts, as \<^verbatim>\<open>_compress_context\<close> builds it.\<close>

definition initial_tokens_of :: "int \<Rightarrow> int \<Rightarrow> int \<Rightarrow> int \<Rightarrow> int \<Rightarrow> source \<rightharpoonup> int" where
  "initial_tokens_of c p d b t =
     [''chunks'' \<mapsto> c, ''product_guidelines'' \<mapsto> p, ''design_guidelines'' \<mapsto> d,
      ''benchmarks'' \<mapsto> b, ''team_objectives'' \<mapsto> t]"

text \<open>A priority dictionary in which every weight is positive; used for concrete
  inputs.\<close>

definition even_priorities :: "(source \<times> rat) list" where
  "even_priorities =
     [(''chunks'', 4 / 10), (''product_guidelines'', 3 / 10), (''design_guidelines'', 1 / 10),
      (''benchmarks'', 1 / 10), (''team_objectives'', 1 / 10)]"

section \<open>Source selection\<close>

text \<open>\<^verbatim>\<open>_select_relevant_sources\<close>: the selection matrix, with the row of
  \<^verbatim>\<open>informative\<close> for an objective it does not list
  (\<^verbatim>\<open>selection_matrix.get(objective, selection_matrix["informative"])\<close>).\<close>

definition informative_sources :: "(source \<times> bool) list" where
  "informative_sources =
     [(''chunks'', True), (''product_guidelines'', True), (''design_guidelines'', False),
      (''benchmarks'', False), (''team_objectives'', False)]"

definition select_relevant_sources :: "string \<Rightarrow> (source \<times> bool) list" where
  "select_relevant_sources objective =
     (if objective = ''informative'' then informative_sources
      else if objective = ''hypothesis'' then
        [(''chunks'', True), (''product_guidelines'', True), (''design_guidelines'', True),
         (''benchmarks'', True), (''team_objectives'', False)]
      else if objective = ''benchmark'' then
        [(''chunks'', True), (''product_guidelines'', True), (''design_guidelines'', True),
         (''benchmarks'', True), (''team_objectives'', False)]
      else if objective = ''objectives'' then
        [(''chunks'', True), (''product_guidelines'', True), (''design_guidelines'', False),
         (''benchmarks'', False), (''team_objectives'', True)]
      else informative_sources)"

section \<open>Strings\<close>

text \<open>
  Strings are lists of 8-bit characters; the model covers ASCII text. \<^verbatim>\<open>str.strip()\<close>
  removes the leading and trailing characters for which \<^verbatim>\<open>str.isspace()\<close> holds: in
  ASCII the codes 9 to 13 and 28 to 32.
\<close>

definition is_space :: "char \<Rightarrow> bool" where
  "is_space c = ((9 \<le> (of_char c :: nat) \<and> (of_char c :: nat) \<le> 13)
                 \<or> (28 \<le> (of_char c :: nat) \<and> (of_char c :: nat) \<le> 32))"

definition strip :: "string \<Rightarrow> string" where
  "strip s = rev (dropWhile is_space (rev (dropWhile is_space s)))"

text \<open>\<^verbatim>\<open>s.split(sep)\<close> for a separator of one character: the pieces between the
  separators, the empty ones included; the empty string gives one empty piece.\<close>

fun split_on :: "char \<Rightarrow> string \<Rightarrow> string list" where
  "split_on sep [] = [[]]"
| "split_on sep (c # cs) =
     (if c = sep then [] # split_on sep cs
      else (case split_on sep cs of
              [] \<Rightarrow> [[c]]
            | piece # pieces \<Rightarrow> (c # piece) # pieces))"

text \<open>\<^verbatim>\<open>sep.join(items)\<close>.\<close>

fun join :: "string \<Rightarrow> string list \<Rightarrow> string" where
  "join sep [] = []"
| "join sep [x] = x"
| "join sep (x # y # ys) = x @ sep @ join sep (y # ys)"

text \<open>
  \<^verbatim>\<open>int(s)\<close> of a string, \<open>None\<close> for \<^verbatim>\<open>ValueError\<close>: surrounding whitespace is
  dropped, then an optional sign, then decimal digits, where single underscores may stand
  between two digits. \<open>int_digits prev acc cs\<close> reads the digits \<open>cs\<close>; \<open>prev\<close> says
  that the character before was a digit. The limit that recent interpreters put on the
  number of digits is not modelled.
\<close>

definition is_digit :: "char \<Rightarrow> bool" where
  "is_digit c = (48 \<le> (of_char c :: nat) \<and> (of_char c :: nat) \<le> 57)"

fun int_digits :: "bool \<Rightarrow> int \<Rightarrow> string \<Rightarrow> int option" where
  "int_digits prev acc [] = (if prev then Some acc else None)"
| "int_digits prev acc (c # cs) =
     (if is_digit c then int_digits True (10 * acc + (int (of_char c) - 48)) cs
      else if c = CHR ''_'' \<and> prev then int_digits False acc cs
      else None)"

definition parse_int :: "string \<Rightarrow> int option" where
  "parse_int s =
     (case strip s of
        [] \<Rightarrow> None
      | c # cs \<Rightarrow>
          if c = CHR ''-'' then map_option uminus (int_digits False 0 cs)
          else if c = CHR ''+'' then int_digits False 0 cs
          else int_digits False 0 (c # cs))"

section \<open>Relevance filters\<close>

text \<open>
  \<^verbatim>\<open>_filter_relevant_sections\<close> and \<^verbatim>\<open>_filter_relevant_chunks\<close> parse the reply of the
  language model in the same way. The reply (\<^verbatim>\<open>response.choices[0].message.content\<close>)
  is an input of the model. \<open>collect_indices\<close> is the loop over the comma-separated
  parts inside the \<^verbatim>\<open>try\<close> block: \<open>None\<close> when \<^verbatim>\<open>int\<close> raises \<^verbatim>\<open>ValueError\<close>, else the
  indices appended so far.
\<close>

fun collect_indices :: "nat \<Rightarrow> string list \<Rightarrow> nat list \<Rightarrow> nat list option" where
  "collect_indices n [] relevant_indices = Some relevant_indices"
| "collect_indices n (part # parts) relevant_indices =
     (case parse_int (strip part) of
        None \<Rightarrow> None
      | Some v \<Rightarrow>
          (let idx = v - 1
           in if 0 \<le> idx \<and> idx < int n
              then collect_indices n parts (relevant_indices @ [nat idx])
              else collect_indices n parts relevant_indices))"

text \<open>The indices selected by a reply for a list of \<open>n\<close> items: none for the reply
  \<^verbatim>\<open>"0"\<close>, all of them (\<^verbatim>\<open>list(range(n))\<close>) after a \<^verbatim>\<open>ValueError\<close>.\<close>

definition relevant_indices_of :: "string \<Rightarrow> nat \<Rightarrow> nat list" where
  "relevant_indices_of reply n =
     (let sections_str = strip reply
      in if sections_str \<noteq> ''0''
         then (case collect_indices n (split_on CHR '','' sections_str) [] of
                 None \<Rightarrow> [0..<n]
               | Some relevant_indices \<Rightarrow> relevant_indices)
         else [])"

text \<open>\<^verbatim>\<open>_filter_relevant_sections\<close>: an empty list returns before any call.\<close>

definition filter_relevant_sections :: "string \<Rightarrow> string list \<Rightarrow> string list" where
  "filter_relevant_sections reply sections =
     (if sections = [] then []
      else map (\<lambda>i. sections ! i) (relevant_indices_of reply (length sections)))"

section \<open>Passages and reranking\<close>

text \<open>
  A retrieved passage is a dictionary with the keys that \<^verbatim>\<open>_retrieve_similar_chunks\<close>
  writes; \<^verbatim>\<open>_rerank_results\<close> adds \<^verbatim>\<open>rerank_score\<close> and \<^verbatim>\<open>combined_score\<close>, which are
  absent (\<open>None\<close>) before. Scores are rationals. The passages of a list are
  separate objects, as the retrieval builds them, so that writing the scores of one
  leaves the others unchanged.
\<close>

record passage =
  passage_text :: string
  title :: string
  document_title :: string
  document_source :: string
  passage_type :: string
  category :: string
  position :: rat
  similarity_score :: rat
  rerank_score :: "rat option"
  combined_score :: "rat option"

text \<open>\<^verbatim>\<open>_filter_relevant_chunks\<close>: five chunks or fewer are returned without a call.\<close>

definition filter_relevant_chunks :: "string \<Rightarrow> passage list \<Rightarrow> passage list" where
  "filter_relevant_chunks reply chunks =
     (if length chunks \<le> 5 then chunks
      else map (\<lambda>i. chunks ! i) (relevant_indices_of reply (length chunks)))"

text \<open>A passage as \<^verbatim>\<open>_retrieve_similar_chunks\<close> returns it, with a text and a
  similarity score and the other fields empty; used for concrete inputs.\<close>

definition retrieved :: "string \<Rightarrow> rat \<Rightarrow> passage" where
  "retrieved txt score =
     \<lparr>passage_text = txt, title = [], document_title = [], document_source = [],
      passage_type = [], category = [], position = 0, similarity_score = score,
      rerank_score = None, combined_score = None\<rparr>"

text \<open>
  \<^verbatim>\<open>_rerank_results\<close>. The conversion \<^verbatim>\<open>float(line.strip())\<close> is a parameter
  \<open>to_float\<close> of the model: it gives the score of a line, or \<open>None\<close> for
  \<^verbatim>\<open>ValueError\<close>. \<open>parse_scores\<close> is the loop over the lines of the reply.
\<close>

fun parse_scores :: "(string \<Rightarrow> rat option) \<Rightarrow> string list \<Rightarrow> rat list" where
  "parse_scores to_float [] = []"
| "parse_scores to_float (line # lines) =
     (case to_float (strip line) of
        None \<Rightarrow> parse_scores to_float lines
      | Some score \<Rightarrow> score # parse_scores to_float lines)"

text \<open>\<^verbatim>\<open>scores.extend([0] * (len(initial_results) - len(scores)))\<close> when scores are
  missing.\<close>

definition pad_scores :: "nat \<Rightarrow> rat list \<Rightarrow> rat list" where
  "pad_scores n scores =
     (if length scores < n then scores @ replicate (n - length scores) 0 else scores)"

text \<open>The loop \<^verbatim>\<open>for i, result in enumerate(initial_results)\<close>, from index \<open>i\<close> on.\<close>

fun assign_scores :: "nat \<Rightarrow> rat list \<Rightarrow> passage list \<Rightarrow> passage list" where
  "assign_scores i scores [] = []"
| "assign_scores i scores (result # results) =
     (if i < length scores
      then result\<lparr>rerank_score := Some (scores ! i),
                  combined_score :=
                    Some (3 / 10 * similarity_score result + 7 / 10 * (scores ! i / 10))\<rparr>
      else result\<lparr>rerank_score := Some 0,
                  combined_score := Some (3 / 10 * similarity_score result)\<rparr>)
     # assign_scores (Suc i) scores results"

text \<open>\<^verbatim>\<open>sorted(..., key=lambda x: x["combined_score"], reverse=True)\<close> is a stable sort
  in descending order of the key: a stable ascending sort on the negated key.\<close>

definition rerank_results :: "(string \<Rightarrow> rat option) \<Rightarrow> string \<Rightarrow> passage list \<Rightarrow> passage list" where
  "rerank_results to_float reply initial_results =
     (if initial_results = [] then []
      else
        (let scores_text = strip reply;
             scores = parse_scores to_float (split_on (CHR 0x0A) scores_text);
             scores = pad_scores (length initial_results) scores
         in sort_key (\<lambda>x. - the (combined_score x))
              (assign_scores 0 scores initial_results)))"

section \<open>Compression\<close>

text \<open>\<^verbatim>\<open>_count_tokens\<close>: a quarter of the length, rounded down.\<close>

definition count_tokens :: "string \<Rightarrow> int" where
  "count_tokens txt = (if txt = [] then 0 else int (length txt) div 4)"

text \<open>
  A summarisation request to the language model, as \<^verbatim>\<open>_compress_component\<close> issues it;
  the model \<open>llm\<close> maps a request to the content of the reply. Every function that may
  call the model returns the list of the requests it issued beside its result.
\<close>

record compression_call =
  call_query :: string
  call_text :: string
  call_component :: string
  call_max_tokens :: int

definition compress_component ::
  "(compression_call \<Rightarrow> string) \<Rightarrow> string \<Rightarrow> string \<Rightarrow> string \<Rightarrow> int \<Rightarrow>
   string \<times> compression_call list"
where
  "compress_component llm query txt component_name max_tokens =
     (if count_tokens txt \<le> max_tokens then (txt, [])
      else
        (let call = \<lparr>call_query = query, call_text = txt, call_component = component_name,
                     call_max_tokens = max_tokens\<rparr>
         in (strip (llm call), [call])))"

text \<open>One of the five blocks of \<^verbatim>\<open>_compress_context\<close> after the allocation:
  \<^verbatim>\<open>if text and token_allocation[source] > 0: ... else ""\<close>.\<close>

definition compress_source ::
  "(compression_call \<Rightarrow> string) \<Rightarrow> string \<Rightarrow> (source \<times> int) list \<Rightarrow> source \<Rightarrow> string \<Rightarrow>
   string \<Rightarrow> error + string \<times> compression_call list"
where
  "compress_source llm query token_allocation source txt component_name =
     (if txt = [] then Inr ([], [])
      else (case map_of token_allocation source of
              None \<Rightarrow> Inl KeyError
            | Some tokens \<Rightarrow>
                if 0 < tokens
                then Inr (compress_component llm query txt component_name tokens)
                else Inr ([], [])))"

record compressed_context =
  chunks :: string
  product_guidelines :: string
  design_guidelines :: string
  benchmarks :: string
  team_objectives :: string
  total_tokens :: int

definition bind_error :: "error + 'a \<Rightarrow> ('a \<Rightarrow> error + 'b) \<Rightarrow> error + 'b" where
  "bind_error m f = (case m of Inl e \<Rightarrow> Inl e | Inr x \<Rightarrow> f x)"

text \<open>The part of \<^verbatim>\<open>_compress_context\<close> after the allocation (lines 401 to 470).\<close>

definition compress_all ::
  "(compression_call \<Rightarrow> string) \<Rightarrow> string \<Rightarrow> (source \<times> int) list \<Rightarrow>
   string \<Rightarrow> string \<Rightarrow> string \<Rightarrow> string \<Rightarrow> string \<Rightarrow>
   error + compressed_context \<times> compression_call list"
where
  "compress_all llm query token_allocation chunks_text product_text design_text
       benchmarks_text objectives_text =
     bind_error (compress_source llm query token_allocation ''chunks'' chunks_text
                   ''chunks recuperados'') (\<lambda>(c, calls1).
     bind_error (compress_source llm query token_allocation ''product_guidelines'' product_text
                   ''diretrizes de produto'') (\<lambda>(p, calls2).
     bind_error (compress_source llm query token_allocation ''design_guidelines'' design_text
                   ''diretrizes de design'') (\<lambda>(d, calls3).
     bind_error (compress_source llm query token_allocation ''benchmarks'' benchmarks_text
                   ''benchmarks'') (\<lambda>(b, calls4).
     bind_error (compress_source llm query token_allocation ''team_objectives'' objectives_text
                   ''objetivos do time'') (\<lambda>(t, calls5).
     Inr (\<lparr>chunks = c, product_guidelines = p, design_guidelines = d, benchmarks = b,
           team_objectives = t,
           total_tokens = count_tokens c + count_tokens p + count_tokens d
                            + count_tokens b + count_tokens t\<rparr>,
          calls1 @ calls2 @ calls3 @ calls4 @ calls5))))))"

text \<open>
  \<^verbatim>\<open>_compress_context\<close>, with \<^verbatim>\<open>self.max_total_tokens\<close> as the parameter
  \<open>max_total_tokens\<close>. The result comes with the list of the summarisation requests
  issued, in order.
\<close>

definition compress_context ::
  "(compression_call \<Rightarrow> string) \<Rightarrow> int \<Rightarrow> string \<Rightarrow> passage list \<Rightarrow> string list \<Rightarrow>
   string list \<Rightarrow> string list \<Rightarrow> string list \<Rightarrow> string \<Rightarrow>
   error + compressed_context \<times> compression_call list"
where
  "compress_context llm max_total_tokens query chunk_list product_list design_list
       benchmark_list objective_list objective =
     (let priorities = get_priorities_by_objective objective;
          chunks_text = join [CHR 0x0A, CHR 0x0A] (map passage_text chunk_list);
          product_text = join [CHR 0x0A, CHR 0x0A] product_list;
          design_text = join [CHR 0x0A, CHR 0x0A] design_list;
          benchmarks_text = join [CHR 0x0A, CHR 0x0A] benchmark_list;
          objectives_text = join [CHR 0x0A, CHR 0x0A] objective_list;
          initial_tokens =
            initial_tokens_of (count_tokens chunks_text) (count_tokens product_text)
              (count_tokens design_text) (count_tokens benchmarks_text)
              (count_tokens objectives_text);
          total_initial_tokens =
            count_tokens chunks_text + count_tokens product_text + count_tokens design_text
              + count_tokens benchmarks_text + count_tokens objectives_text
      in if total_initial_tokens \<le> max_total_tokens
         then Inr (\<lparr>chunks = chunks_text, product_guidelines = product_text,
                     design_guidelines = design_text, benchmarks = benchmarks_text,
                     team_objectives = objectives_text,
                     total_tokens = total_initial_tokens\<rparr>, [])
         else bind_error (allocate_tokens max_total_tokens priorities initial_tokens)
                (\<lambda>token_allocation.
                   compress_all llm query token_allocation chunks_text product_text
                     design_text benchmarks_text objectives_text))"

section \<open>Properties of the allocator\<close>

text \<open>
  Claim C3. With a budget of 6000, the priorities of \<^verbatim>\<open>informative\<close> and the initial
  tokens chunks 8000, product_guidelines 500 and 0 elsewhere: the active sources are
  chunks and product_guidelines, their weights sum to 1, the proportional pass gives 5100
  and 900, the rounding adjustment changes nothing, the cap loop clips product_guidelines
  to 500 and hands the whole excess of 400 to chunks, and the function returns chunks
  5500, product_guidelines 500 and 0 elsewhere, which sum to 6000.
\<close>

theorem allocate_tokens_scenario:
  "active_of informative_priorities (\<lambda>k. the (initial_tokens_of 8000 500 0 0 0 k)) =
     [(''chunks'', 85 / 100), (''product_guidelines'', 15 / 100)]
   \<and> sum_list (map snd [(''chunks'', 85 / 100), (''product_guidelines'', 15 / 100 :: rat)]) = 1
   \<and> normalize 1 [(''chunks'', 85 / 100), (''product_guidelines'', 15 / 100)] =
       Inr [(''chunks'', 85 / 100), (''product_guidelines'', 15 / 100)]
   \<and> map (proportional 6000 [(''chunks'', 85 / 100), (''product_guidelines'', 15 / 100)])
         (map fst informative_priorities) = [5100, 900, 0, 0, 0]
   \<and> map (adjust 6000 informative_priorities
              [(''chunks'', 85 / 100), (''product_guidelines'', 15 / 100)]
              (proportional 6000 [(''chunks'', 85 / 100), (''product_guidelines'', 15 / 100)]))
         (map fst informative_priorities) = [5100, 900, 0, 0, 0]
   \<and> map_sum id (\<lambda>a. map a (map fst informative_priorities))
         (redistribute [(''chunks'', 85 / 100), (''product_guidelines'', 15 / 100)]
            (\<lambda>k. the (initial_tokens_of 8000 500 0 0 0 k)) ''product_guidelines''
            ((proportional 6000 [(''chunks'', 85 / 100), (''product_guidelines'', 15 / 100)])
               (''product_guidelines'' := 500))
            (900 - 500)) = Inr [5500, 500, 0, 0, 0]
   \<and> allocate_tokens 6000 informative_priorities (initial_tokens_of 8000 500 0 0 0) =
       Inr [(''chunks'', 5500), (''product_guidelines'', 500), (''design_guidelines'', 0),
            (''benchmarks'', 0), (''team_objectives'', 0)]
   \<and> sum_list (map snd [(''chunks'', 5500 :: int), (''product_guidelines'', 500),
         (''design_guidelines'', 0), (''benchmarks'', 0), (''team_objectives'', 0)]) = 6000"
proof -
  let ?act = "[(''chunks'', 85 / 100), (''product_guidelines'', 15 / 100 :: rat)]"
  have a: "active_of informative_priorities (\<lambda>k. the (initial_tokens_of 8000 500 0 0 0 k)) = ?act"
    by (simp add: active_of_def informative_priorities_def initial_tokens_of_def)
  have n: "normalize 1 ?act = Inr ?act"
    by (simp add: py_div_def)
  have p: "map (proportional 6000 ?act) (map fst informative_priorities) = [5100, 900, 0, 0, 0]"
    by (simp add: informative_priorities_def proportional_def py_int_def)
  have j: "map (adjust 6000 informative_priorities ?act (proportional 6000 ?act))
             (map fst informative_priorities) = [5100, 900, 0, 0, 0]"
    by (simp add: informative_priorities_def adjust_def proportional_def py_int_def)
  have r: "map_sum id (\<lambda>a. map a (map fst informative_priorities))
         (redistribute ?act (\<lambda>k. the (initial_tokens_of 8000 500 0 0 0 k)) ''product_guidelines''
            ((proportional 6000 ?act)(''product_guidelines'' := 500)) (900 - 500)) =
         Inr [5500, 500, 0, 0, 0]"
    by (simp add: redistribute_def candidates_of_def initial_tokens_of_def proportional_def
        py_int_def py_div_def informative_priorities_def)
  have f: "allocate_tokens 6000 informative_priorities (initial_tokens_of 8000 500 0 0 0) =
       Inr [(''chunks'', 5500), (''product_guidelines'', 500), (''design_guidelines'', 0),
            (''benchmarks'', 0), (''team_objectives'', 0)]"
    by (simp add: allocate_tokens_def allocate_def active_of_def first_pass_def py_div_def
        informative_priorities_def proportional_def adjust_def py_int_def initial_tokens_of_def
        redistribute_def candidates_of_def)
  show ?thesis
    using a n p j r f by simp
qed

section \<open>Properties of the source selection\<close>

text \<open>
  Claim C9. \<^verbatim>\<open>_select_relevant_sources\<close> is the selection table: for \<^verbatim>\<open>informative\<close>
  only chunks and product_guidelines are true; for \<^verbatim>\<open>hypothesis\<close> and \<^verbatim>\<open>benchmark\<close>
  chunks, product_guidelines, design_guidelines and benchmarks are true and
  team_objectives is false; for \<^verbatim>\<open>objectives\<close> chunks, product_guidelines and
  team_objectives are true; any other objective gives the row of \<^verbatim>\<open>informative\<close>.
\<close>

theorem select_relevant_sources_table:
  "select_relevant_sources ''informative'' =
     [(''chunks'', True), (''product_guidelines'', True), (''design_guidelines'', False),
      (''benchmarks'', False), (''team_objectives'', False)]
   \<and> select_relevant_sources ''hypothesis'' =
     [(''chunks'', True), (''product_guidelines'', True), (''design_guidelines'', True),
      (''benchmarks'', True), (''team_objectives'', False)]
   \<and> select_relevant_sources ''benchmark'' =
     [(''chunks'', True), (''product_guidelines'', True), (''design_guidelines'', True),
      (''benchmarks'', True), (''team_objectives'', False)]
   \<and> select_relevant_sources ''objectives'' =
     [(''chunks'', True), (''product_guidelines'', True), (''design_guidelines'', False),
      (''benchmarks'', False), (''team_objectives'', True)]
   \<and> (objective \<noteq> ''informative'' \<and> objective \<noteq> ''hypothesis'' \<and> objective \<noteq> ''benchmark''
        \<and> objective \<noteq> ''objectives''
      \<longrightarrow> select_relevant_sources objective = select_relevant_sources ''informative'')"
  by (simp add: select_relevant_sources_def informative_sources_def)

theorem select_relevant_sources_table_witness:
  "''summary'' \<noteq> ''informative'' \<and> ''summary'' \<noteq> ''hypothesis'' \<and> ''summary'' \<noteq> ''benchmark''
   \<and> ''summary'' \<noteq> ''objectives''
   \<and> select_relevant_sources ''summary'' =
     [(''chunks'', True), (''product_guidelines'', True), (''design_guidelines'', False),
      (''benchmarks'', False), (''team_objectives'', False)]"
  using select_relevant_sources_table [of "''summary''"] by simp

section \<open>Properties of the relevance filters\<close>

lemma collect_indices_None:
  "collect_indices n parts acc = None \<longleftrightarrow> list_ex (\<lambda>part. parse_int (strip part) = None) parts"
  by (induction parts arbitrary: acc) (auto split: option.splits simp: Let_def)

lemma collect_indices_Some:
  "\<not> list_ex (\<lambda>part. parse_int (strip part) = None) parts \<Longrightarrow>
   collect_indices n parts acc =
     Some (acc @ map (\<lambda>v. nat (v - 1))
             (filter (\<lambda>v. 1 \<le> v \<and> v \<le> int n)
                (map (\<lambda>part. the (parse_int (strip part))) parts)))"
  by (induction parts arbitrary: acc) (auto split: option.splits simp: Let_def)

lemma parse_zero: "parse_int (strip ''0'') = Some 0"
  by (simp add: parse_int_def strip_def is_space_def is_digit_def)

lemma relevant_indices_zero: "strip reply = ''0'' \<Longrightarrow> relevant_indices_of reply n = []"
  by (simp add: relevant_indices_of_def)

lemma relevant_indices_fallback:
  assumes "list_ex (\<lambda>part. parse_int (strip part) = None) (split_on CHR '','' (strip reply))"
  shows "relevant_indices_of reply n = [0..<n]"
proof -
  have "strip reply \<noteq> ''0''"
  proof
    assume "strip reply = ''0''"
    with assms show False by (simp add: parse_zero)
  qed
  moreover have "collect_indices n (split_on CHR '','' (strip reply)) [] = None"
    using assms by (simp add: collect_indices_None)
  ultimately show ?thesis by (simp add: relevant_indices_of_def)
qed

lemma relevant_indices_parsed:
  assumes "strip reply \<noteq> ''0''"
    and "\<not> list_ex (\<lambda>part. parse_int (strip part) = None) (split_on CHR '','' (strip reply))"
  shows "relevant_indices_of reply n =
     map (\<lambda>v. nat (v - 1))
       (filter (\<lambda>v. 1 \<le> v \<and> v \<le> int n)
          (map (\<lambda>part. the (parse_int (strip part))) (split_on CHR '','' (strip reply))))"
  using assms by (simp add: relevant_indices_of_def collect_indices_Some)

lemma relevant_indices_in_range:
  "\<not> list_ex (\<lambda>part. parse_int (strip part) = None) (split_on CHR '','' (strip reply)) \<Longrightarrow>
   i \<in> set (relevant_indices_of reply n) \<Longrightarrow> i < n"
  by (cases "strip reply = ''0''") (auto simp: relevant_indices_zero relevant_indices_parsed)

text \<open>
  Claim C4. For a list that reaches the call (a non-empty list of sections, more than
  five chunks): when the trimmed reply is exactly \<^verbatim>\<open>"0"\<close> the filter returns the empty
  list; when a comma-separated part of the trimmed reply fails the conversion to an
  integer, the filter returns all the items, unchanged and in their order.
\<close>

theorem filter_parse_fallback:
  "(sections \<noteq> [] \<and> strip reply = ''0'' \<longrightarrow> filter_relevant_sections reply sections = [])
 \<and> (sections \<noteq> []
      \<and> list_ex (\<lambda>part. parse_int (strip part) = None) (split_on CHR '','' (strip reply))
      \<longrightarrow> filter_relevant_sections reply sections = sections)
 \<and> (5 < length chunk_list \<and> strip reply = ''0''
      \<longrightarrow> filter_relevant_chunks reply chunk_list = [])
 \<and> (5 < length chunk_list
      \<and> list_ex (\<lambda>part. parse_int (strip part) = None) (split_on CHR '','' (strip reply))
      \<longrightarrow> filter_relevant_chunks reply chunk_list = chunk_list)"
  by (simp add: filter_relevant_sections_def filter_relevant_chunks_def relevant_indices_zero
      relevant_indices_fallback map_nth)

theorem filter_parse_fallback_witness:
  "[''a'', ''b'', ''c''] \<noteq> [] \<and> strip '' 0 '' = ''0''
   \<and> filter_relevant_sections '' 0 '' [''a'', ''b'', ''c''] = []
   \<and> list_ex (\<lambda>part. parse_int (strip part) = None) (split_on CHR '','' (strip ''1, x, 3''))
   \<and> filter_relevant_sections ''1, x, 3'' [''a'', ''b'', ''c''] = [''a'', ''b'', ''c'']
   \<and> 5 < length (map (\<lambda>t. retrieved t 0) [''a'', ''b'', ''c'', ''d'', ''e'', ''f''])
   \<and> filter_relevant_chunks '' 0 ''
        (map (\<lambda>t. retrieved t 0) [''a'', ''b'', ''c'', ''d'', ''e'', ''f'']) = []
   \<and> filter_relevant_chunks ''1, x, 3''
        (map (\<lambda>t. retrieved t 0) [''a'', ''b'', ''c'', ''d'', ''e'', ''f'']) =
      map (\<lambda>t. retrieved t 0) [''a'', ''b'', ''c'', ''d'', ''e'', ''f'']"
proof -
  let ?cs = "map (\<lambda>t. retrieved t 0) [''a'', ''b'', ''c'', ''d'', ''e'', ''f'']"
  have s: "strip '' 0 '' = ''0''" by (simp add: strip_def is_space_def)
  have p: "list_ex (\<lambda>part. parse_int (strip part) = None) (split_on CHR '','' (strip ''1, x, 3''))"
    by (simp add: strip_def is_space_def parse_int_def is_digit_def)
  have l: "5 < length ?cs" by simp
  show ?thesis
    using s p l filter_parse_fallback [of "[''a'', ''b'', ''c'']" "'' 0 ''" ?cs]
      filter_parse_fallback [of "[''a'', ''b'', ''c'']" "''1, x, 3''" ?cs]
    by simp
qed

lemma chunk_examples:
  "filter_relevant_chunks ''2,1''
        (map (\<lambda>t. retrieved t 0) [''a'', ''b'', ''c'', ''d'', ''e'', ''f'']) =
      [retrieved ''b'' 0, retrieved ''a'' 0]
   \<and> \<not> subseq (filter_relevant_chunks ''2,1''
        (map (\<lambda>t. retrieved t 0) [''a'', ''b'', ''c'', ''d'', ''e'', ''f'']))
        (map (\<lambda>t. retrieved t 0) [''a'', ''b'', ''c'', ''d'', ''e'', ''f''])
   \<and> filter_relevant_chunks ''1,1''
        (map (\<lambda>t. retrieved t 0) [''a'', ''b'', ''c'', ''d'', ''e'', ''f'']) =
      [retrieved ''a'' 0, retrieved ''a'' 0]"
proof -
  have a: "filter_relevant_chunks ''2,1''
        (map (\<lambda>t. retrieved t 0) [''a'', ''b'', ''c'', ''d'', ''e'', ''f'']) =
      [retrieved ''b'' 0, retrieved ''a'' 0]"
    by (simp add: filter_relevant_chunks_def relevant_indices_of_def strip_def is_space_def
        parse_int_def is_digit_def)
  have b: "filter_relevant_chunks ''1,1''
        (map (\<lambda>t. retrieved t 0) [''a'', ''b'', ''c'', ''d'', ''e'', ''f'']) =
      [retrieved ''a'' 0, retrieved ''a'' 0]"
    by (simp add: filter_relevant_chunks_def relevant_indices_of_def strip_def is_space_def
        parse_int_def is_digit_def)
  have c: "\<not> subseq [retrieved ''b'' 0, retrieved ''a'' 0]
        (map (\<lambda>t. retrieved t 0) [''a'', ''b'', ''c'', ''d'', ''e'', ''f''])"
    by (simp add: retrieved_def)
  show ?thesis using a b c by simp
qed

text \<open>
  Claim C10. When every comma-separated part of the trimmed reply converts to an integer,
  every item that a filter returns is an item of its input, and for a list that reaches
  the call and a reply other than \<^verbatim>\<open>"0"\<close> the output is the list of the items at the
  indices of the reply that are in range, in the order of the reply and with its
  repetitions. So the output can fail to be a subsequence of the input (reply
  \<^verbatim>\<open>"2,1"\<close>) and can be longer than its set of items (reply \<^verbatim>\<open>"1,1"\<close>).
\<close>

theorem filter_output_from_input:
  "(\<not> list_ex (\<lambda>part. parse_int (strip part) = None) (split_on CHR '','' (strip reply)) \<longrightarrow>
      set (filter_relevant_sections reply sections) \<subseteq> set sections
      \<and> set (filter_relevant_chunks reply chunk_list) \<subseteq> set chunk_list
      \<and> (sections \<noteq> [] \<and> strip reply \<noteq> ''0'' \<longrightarrow>
           filter_relevant_sections reply sections =
             map (\<lambda>v. sections ! nat (v - 1))
               (filter (\<lambda>v. 1 \<le> v \<and> v \<le> int (length sections))
                  (map (\<lambda>part. the (parse_int (strip part)))
                     (split_on CHR '','' (strip reply)))))
      \<and> (5 < length chunk_list \<and> strip reply \<noteq> ''0'' \<longrightarrow>
           filter_relevant_chunks reply chunk_list =
             map (\<lambda>v. chunk_list ! nat (v - 1))
               (filter (\<lambda>v. 1 \<le> v \<and> v \<le> int (length chunk_list))
                  (map (\<lambda>part. the (parse_int (strip part)))
                     (split_on CHR '','' (strip reply))))))
   \<and> filter_relevant_sections ''2,1'' [''a'', ''b''] = [''b'', ''a'']
   \<and> \<not> subseq (filter_relevant_sections ''2,1'' [''a'', ''b'']) [''a'', ''b'']
   \<and> filter_relevant_sections ''1,1'' [''a'', ''b''] = [''a'', ''a'']
   \<and> card (set (filter_relevant_sections ''1,1'' [''a'', ''b'']))
       < length (filter_relevant_sections ''1,1'' [''a'', ''b''])
   \<and> filter_relevant_chunks ''2,1''
        (map (\<lambda>t. retrieved t 0) [''a'', ''b'', ''c'', ''d'', ''e'', ''f'']) =
      [retrieved ''b'' 0, retrieved ''a'' 0]
   \<and> \<not> subseq (filter_relevant_chunks ''2,1''
        (map (\<lambda>t. retrieved t 0) [''a'', ''b'', ''c'', ''d'', ''e'', ''f'']))
        (map (\<lambda>t. retrieved t 0) [''a'', ''b'', ''c'', ''d'', ''e'', ''f''])
   \<and> filter_relevant_chunks ''1,1''
        (map (\<lambda>t. retrieved t 0) [''a'', ''b'', ''c'', ''d'', ''e'', ''f'']) =
      [retrieved ''a'' 0, retrieved ''a'' 0]"
proof -
  have ex1: "filter_relevant_sections ''2,1'' [''a'', ''b''] = [''b'', ''a'']"
    by (simp add: filter_relevant_sections_def relevant_indices_of_def strip_def is_space_def
        parse_int_def is_digit_def)
  have ex2: "filter_relevant_sections ''1,1'' [''a'', ''b''] = [''a'', ''a'']"
    by (simp add: filter_relevant_sections_def relevant_indices_of_def strip_def is_space_def
        parse_int_def is_digit_def)
  have ns: "\<not> subseq [''b'', ''a''] [''a'', ''b'']"
    by simp
  have general: "set (filter_relevant_sections reply sections) \<subseteq> set sections
      \<and> set (filter_relevant_chunks reply chunk_list) \<subseteq> set chunk_list
      \<and> (sections \<noteq> [] \<and> strip reply \<noteq> ''0'' \<longrightarrow>
           filter_relevant_sections reply sections =
             map (\<lambda>v. sections ! nat (v - 1))
               (filter (\<lambda>v. 1 \<le> v \<and> v \<le> int (length sections))
                  (map (\<lambda>part. the (parse_int (strip part)))
                     (split_on CHR '','' (strip reply)))))
      \<and> (5 < length chunk_list \<and> strip reply \<noteq> ''0'' \<longrightarrow>
           filter_relevant_chunks reply chunk_list =
             map (\<lambda>v. chunk_list ! nat (v - 1))
               (filter (\<lambda>v. 1 \<le> v \<and> v \<le> int (length chunk_list))
                  (map (\<lambda>part. the (parse_int (strip part)))
                     (split_on CHR '','' (strip reply)))))"
    if ok: "\<not> list_ex (\<lambda>part. parse_int (strip part) = None) (split_on CHR '','' (strip reply))"
  proof -
    have r: "\<And>i n. i \<in> set (relevant_indices_of reply n) \<Longrightarrow> i < n"
      using ok by (rule relevant_indices_in_range)
    have a: "set (filter_relevant_sections reply sections) \<subseteq> set sections"
      using r by (auto simp: filter_relevant_sections_def)
    have b: "set (filter_relevant_chunks reply chunk_list) \<subseteq> set chunk_list"
      using r by (auto simp: filter_relevant_chunks_def)
    have c: "sections \<noteq> [] \<and> strip reply \<noteq> ''0'' \<longrightarrow>
           filter_relevant_sections reply sections =
             map (\<lambda>v. sections ! nat (v - 1))
               (filter (\<lambda>v. 1 \<le> v \<and> v \<le> int (length sections))
                  (map (\<lambda>part. the (parse_int (strip part)))
                     (split_on CHR '','' (strip reply))))"
      using ok by (simp add: filter_relevant_sections_def relevant_indices_parsed o_def)
    have d: "5 < length chunk_list \<and> strip reply \<noteq> ''0'' \<longrightarrow>
           filter_relevant_chunks reply chunk_list =
             map (\<lambda>v. chunk_list ! nat (v - 1))
               (filter (\<lambda>v. 1 \<le> v \<and> v \<le> int (length chunk_list))
                  (map (\<lambda>part. the (parse_int (strip part)))
                     (split_on CHR '','' (strip reply))))"
      using ok by (simp add: filter_relevant_chunks_def relevant_indices_parsed o_def)
    show ?thesis using a b c d by blast
  qed
  have sec: "filter_relevant_sections ''2,1'' [''a'', ''b''] = [''b'', ''a'']
   \<and> \<not> subseq (filter_relevant_sections ''2,1'' [''a'', ''b'']) [''a'', ''b'']
   \<and> filter_relevant_sections ''1,1'' [''a'', ''b''] = [''a'', ''a'']
   \<and> card (set (filter_relevant_sections ''1,1'' [''a'', ''b'']))
       < length (filter_relevant_sections ''1,1'' [''a'', ''b''])"
    using ex1 ex2 ns by simp
  show ?thesis
    using general sec chunk_examples by blast
qed

theorem filter_output_from_input_witness:
  "\<not> list_ex (\<lambda>part. parse_int (strip part) = None) (split_on CHR '','' (strip ''6, 1,1 ,9''))
   \<and> [''a'', ''b'', ''c''] \<noteq> [] \<and> strip ''6, 1,1 ,9'' \<noteq> ''0''
   \<and> 5 < length (map (\<lambda>t. retrieved t 0) [''a'', ''b'', ''c'', ''d'', ''e'', ''f''])
   \<and> filter_relevant_sections ''6, 1,1 ,9'' [''a'', ''b'', ''c''] = [''a'', ''a'']
   \<and> filter_relevant_chunks ''6, 1,1 ,9''
        (map (\<lambda>t. retrieved t 0) [''a'', ''b'', ''c'', ''d'', ''e'', ''f'']) =
      [retrieved ''f'' 0, retrieved ''a'' 0, retrieved ''a'' 0]"
proof -
  let ?cs = "map (\<lambda>t. retrieved t 0) [''a'', ''b'', ''c'', ''d'', ''e'', ''f'']"
  have s: "strip ''6, 1,1 ,9'' = ''6, 1,1 ,9''" by (simp add: strip_def is_space_def)
  have p: "map (\<lambda>part. parse_int (strip part)) (split_on CHR '','' ''6, 1,1 ,9'') = [Some 6, Some 1, Some 1, Some 9]"
    by (simp add: strip_def is_space_def parse_int_def is_digit_def)
  have p': "\<not> list_ex (\<lambda>part. parse_int (strip part) = None) (split_on CHR '','' ''6, 1,1 ,9'')"
    by (simp add: strip_def is_space_def parse_int_def is_digit_def)
  have v: "map (\<lambda>part. the (parse_int (strip part))) (split_on CHR '','' ''6, 1,1 ,9'') = [6, 1, 1, 9]"
    by (simp add: strip_def is_space_def parse_int_def is_digit_def)
  show ?thesis
    using s p' v filter_output_from_input [of "''6, 1,1 ,9''" "[''a'', ''b'', ''c'']" ?cs]
    by simp
qed

section \<open>Properties of the compression\<close>

text \<open>
  Claim C7. When the estimated token counts of the five text blocks sum to at most
  \<open>max_total_tokens\<close>, \<^verbatim>\<open>_compress_context\<close> returns every block unchanged with
  \<open>total_tokens\<close> equal to that sum, issues no summarisation request, and its result
  depends neither on the allocator nor on the objective: it returns also where the
  allocator, called on the same token counts and budget, would raise.
\<close>

theorem compress_context_skip:
  assumes "count_tokens (join [CHR 0x0A, CHR 0x0A] (map passage_text chunk_list))
         + count_tokens (join [CHR 0x0A, CHR 0x0A] product_list)
         + count_tokens (join [CHR 0x0A, CHR 0x0A] design_list)
         + count_tokens (join [CHR 0x0A, CHR 0x0A] benchmark_list)
         + count_tokens (join [CHR 0x0A, CHR 0x0A] objective_list) \<le> max_total_tokens"
  shows "compress_context llm max_total_tokens query chunk_list product_list design_list
           benchmark_list objective_list objective =
         Inr (\<lparr>chunks = join [CHR 0x0A, CHR 0x0A] (map passage_text chunk_list),
               product_guidelines = join [CHR 0x0A, CHR 0x0A] product_list,
               design_guidelines = join [CHR 0x0A, CHR 0x0A] design_list,
               benchmarks = join [CHR 0x0A, CHR 0x0A] benchmark_list,
               team_objectives = join [CHR 0x0A, CHR 0x0A] objective_list,
               total_tokens =
                 count_tokens (join [CHR 0x0A, CHR 0x0A] (map passage_text chunk_list))
                 + count_tokens (join [CHR 0x0A, CHR 0x0A] product_list)
                 + count_tokens (join [CHR 0x0A, CHR 0x0A] design_list)
                 + count_tokens (join [CHR 0x0A, CHR 0x0A] benchmark_list)
                 + count_tokens (join [CHR 0x0A, CHR 0x0A] objective_list)\<rparr>, [])"
  using assms by (simp add: compress_context_def Let_def)

theorem compress_context_skip_witness:
  "count_tokens (join [CHR 0x0A, CHR 0x0A]
       (map passage_text [retrieved ''abcdefgh'' 1, retrieved ''ijkl'' 0]))
     + count_tokens (join [CHR 0x0A, CHR 0x0A] [''12345678''])
     + count_tokens (join [CHR 0x0A, CHR 0x0A] [''design text''])
     + count_tokens (join [CHR 0x0A, CHR 0x0A] [])
     + count_tokens (join [CHR 0x0A, CHR 0x0A] []) \<le> 7
   \<and> compress_context (\<lambda>c. ''summary'') 7 ''q'' [retrieved ''abcdefgh'' 1, retrieved ''ijkl'' 0]
       [''12345678''] [''design text''] [] [] ''informative'' =
     Inr (\<lparr>chunks = ''abcdefgh'' @ [CHR 0x0A, CHR 0x0A] @ ''ijkl'',
           product_guidelines = ''12345678'', design_guidelines = ''design text'',
           benchmarks = [], team_objectives = [], total_tokens = 7\<rparr>, [])
   \<and> allocate_tokens 7 (get_priorities_by_objective ''informative'')
       (initial_tokens_of 3 2 2 0 0) = Inl ZeroDivisionError"
proof -
  have h: "count_tokens (join [CHR 0x0A, CHR 0x0A]
       (map passage_text [retrieved ''abcdefgh'' 1, retrieved ''ijkl'' 0]))
     + count_tokens (join [CHR 0x0A, CHR 0x0A] [''12345678''])
     + count_tokens (join [CHR 0x0A, CHR 0x0A] [''design text''])
     + count_tokens (join [CHR 0x0A, CHR 0x0A] [])
     + count_tokens (join [CHR 0x0A, CHR 0x0A] []) \<le> 7"
    by (simp add: count_tokens_def retrieved_def)
  have a: "allocate_tokens 7 (get_priorities_by_objective ''informative'')
       (initial_tokens_of 3 2 2 0 0) = Inl ZeroDivisionError"
    by code_simp
  show ?thesis
    using h a compress_context_skip [OF h, of "\<lambda>c. ''summary''" "''q''" "''informative''"]
    by (simp add: count_tokens_def retrieved_def)
qed

section \<open>Properties of the reranker\<close>

lemma assign_scores_zip:
  "i + length results \<le> length scores \<Longrightarrow>
   assign_scores i scores results =
     map (\<lambda>(result, score).
            result\<lparr>rerank_score := Some score,
                   combined_score :=
                     Some (3 / 10 * similarity_score result + 7 / 10 * (score / 10))\<rparr>)
       (zip results (drop i scores))"
proof (induction results arbitrary: i)
  case Nil
  then show ?case by simp
next
  case (Cons r rs)
  then have i: "i < length scores" by simp
  then have d: "drop i scores = scores ! i # drop (Suc i) scores"
    by (simp add: Cons_nth_drop_Suc)
  from Cons.prems have "Suc i + length rs \<le> length scores" by simp
  then have "assign_scores (Suc i) scores rs =
     map (\<lambda>(result, score).
            result\<lparr>rerank_score := Some score,
                   combined_score :=
                     Some (3 / 10 * similarity_score result + 7 / 10 * (score / 10))\<rparr>)
       (zip rs (drop (Suc i) scores))"
    by (rule Cons.IH)
  with i d show ?case by simp
qed

lemma pad_scores_length: "n \<le> length (pad_scores n scores)"
  by (simp add: pad_scores_def)

lemma zip_take_len: "zip xs (take (length xs) ys) = zip xs ys"
proof (induction xs arbitrary: ys)
  case Nil
  then show ?case by simp
next
  case (Cons x xs)
  then show ?case by (cases ys) simp_all
qed

lemma zip_pad_scores:
  "zip results (pad_scores (length results) scores) =
   zip results (take (length results) (scores @ replicate (length results) 0))"
proof (cases "length scores < length results")
  case True
  then have "take (length results) (scores @ replicate (length results) 0) =
      scores @ replicate (length results - length scores) 0"
    by simp
  with True show ?thesis by (simp add: pad_scores_def)
next
  case False
  then show ?thesis by (simp add: pad_scores_def zip_take_len)
qed

lemma rerank_results_eq:
  "rerank_results to_float reply initial_results =
     sort_key (\<lambda>x. - the (combined_score x))
       (map (\<lambda>(result, score).
            result\<lparr>rerank_score := Some score,
                   combined_score :=
                     Some (3 / 10 * similarity_score result + 7 / 10 * (score / 10))\<rparr>)
          (zip initial_results
             (take (length initial_results)
                (parse_scores to_float (split_on (CHR 0x0A) (strip reply))
                 @ replicate (length initial_results) 0))))"
proof (cases "initial_results = []")
  case True
  then show ?thesis by (simp add: rerank_results_def)
next
  case False
  let ?scores = "parse_scores to_float (split_on (CHR 0x0A) (strip reply))"
  have "0 + length initial_results \<le> length (pad_scores (length initial_results) ?scores)"
    using pad_scores_length [of "length initial_results" ?scores] by simp
  then have "assign_scores 0 (pad_scores (length initial_results) ?scores) initial_results =
     map (\<lambda>(result, score).
            result\<lparr>rerank_score := Some score,
                   combined_score :=
                     Some (3 / 10 * similarity_score result + 7 / 10 * (score / 10))\<rparr>)
       (zip initial_results (drop 0 (pad_scores (length initial_results) ?scores)))"
    by (rule assign_scores_zip)
  then show ?thesis
    using False by (simp add: rerank_results_def Let_def zip_pad_scores)
qed

text \<open>
  Claim C8. For every list of passages, every reply and every conversion of a line to a
  number, \<^verbatim>\<open>_rerank_results\<close> returns a list of the length of its input. It is a
  reordering of the input passages after scoring: the numbers of the lines that convert,
  in order, padded on the right with 0 and cut to the length of the input, are paired
  with the passages in input order; each passage gets its number as \<open>rerank_score\<close> and
  \<open>0.3 * similarity_score + 0.7 * (rerank_score / 10)\<close> as \<open>combined_score\<close>. The result
  is in descending order of \<open>combined_score\<close>, and the empty input gives the empty list.
\<close>

theorem rerank_results_reorders:
  "length (rerank_results to_float reply initial_results) = length initial_results
   \<and> mset (rerank_results to_float reply initial_results) =
       mset (map (\<lambda>(result, score).
                result\<lparr>rerank_score := Some score,
                       combined_score :=
                         Some (3 / 10 * similarity_score result + 7 / 10 * (score / 10))\<rparr>)
              (zip initial_results
                 (take (length initial_results)
                    (parse_scores to_float (split_on (CHR 0x0A) (strip reply))
                     @ replicate (length initial_results) 0))))
   \<and> sorted_wrt (\<lambda>x y. the (combined_score y) \<le> the (combined_score x))
       (rerank_results to_float reply initial_results)
   \<and> rerank_results to_float reply [] = []"
proof -
  have l: "length (rerank_results to_float reply initial_results) = length initial_results"
    by (simp add: rerank_results_eq)
  have m: "mset (rerank_results to_float reply initial_results) =
       mset (map (\<lambda>(result, score).
                result\<lparr>rerank_score := Some score,
                       combined_score :=
                         Some (3 / 10 * similarity_score result + 7 / 10 * (score / 10))\<rparr>)
              (zip initial_results
                 (take (length initial_results)
                    (parse_scores to_float (split_on (CHR 0x0A) (strip reply))
                     @ replicate (length initial_results) 0))))"
    by (simp add: rerank_results_eq)
  have "sorted (map (\<lambda>x. - the (combined_score x)) (rerank_results to_float reply initial_results))"
    unfolding rerank_results_eq by (rule sorted_sort_key)
  then have s: "sorted_wrt (\<lambda>x y. the (combined_score y) \<le> the (combined_score x))
       (rerank_results to_float reply initial_results)"
    by (simp add: sorted_map)
  have e: "rerank_results to_float reply [] = []"
    by (simp add: rerank_results_def)
  show ?thesis using l m s e by blast
qed

section \<open>Sum and caps of the allocation\<close>

lemma normalize_ok:
  "tot \<noteq> 0 \<Longrightarrow> normalize tot kvs = Inr (map (\<lambda>(k, v). (k, v / tot)) kvs)"
  by (induction kvs) (auto simp: py_div_def)

lemma normalize_zero: "kvs \<noteq> [] \<Longrightarrow> normalize 0 kvs = Inl ZeroDivisionError"
  by (cases kvs) (auto simp: py_div_def)

lemma distribute_zero: "cs \<noteq> [] \<Longrightarrow> distribute 0 cs a e = Inl ZeroDivisionError"
  by (cases cs) (auto simp: py_div_def)

lemma max_key_from_max:
  "\<exists>w. (max_key_from k v kvs, w) \<in> set ((k, v) # kvs) \<and> (\<forall>(k', v') \<in> set ((k, v) # kvs). v' \<le> w)"
proof (induction kvs arbitrary: k v)
  case Nil
  then show ?case by simp
next
  case (Cons kv kvs)
  obtain k1 v1 where kv: "kv = (k1, v1)" by (cases kv)
  show ?case
  proof (cases "v < v1")
    case True
    from Cons.IH [of k1 v1] obtain w where
      w: "(max_key_from k1 v1 kvs, w) \<in> set ((k1, v1) # kvs)"
         "\<forall>(k', v') \<in> set ((k1, v1) # kvs). v' \<le> w"
      by blast
    from w(2) have "v1 \<le> w" by auto
    with True have "v \<le> w" by simp
    with w True kv show ?thesis by auto
  next
    case False
    from Cons.IH [of k v] obtain w where
      w: "(max_key_from k v kvs, w) \<in> set ((k, v) # kvs)"
         "\<forall>(k', v') \<in> set ((k, v) # kvs). v' \<le> w"
      by blast
    from w(2) have "v \<le> w" by auto
    with False have "v1 \<le> w" by simp
    with w False kv show ?thesis by auto
  qed
qed

lemma max_key_from_mem: "max_key_from k v kvs \<in> set (map fst ((k, v) # kvs))"
proof -
  from max_key_from_max [of k v kvs] obtain w where
    "(max_key_from k v kvs, w) \<in> set ((k, v) # kvs)" by blast
  then have "fst (max_key_from k v kvs, w) \<in> fst ` set ((k, v) # kvs)" by (rule imageI)
  then show ?thesis by simp
qed

lemma sum_list_update_if:
  "distinct ks \<Longrightarrow>
   sum_list (map (a(m := a m + d)) ks) = sum_list (map a ks) + (if m \<in> set ks then (d::int) else 0)"
  by (induction ks) auto

lemma sum_list_update:
  "distinct ks \<Longrightarrow> m \<in> set ks \<Longrightarrow>
   sum_list (map (a(m := a m + d)) ks) = sum_list (map a ks) + (d::int)"
  by (simp only: sum_list_update_if if_True)

lemma sum_list_pos:
  "kvs \<noteq> [] \<Longrightarrow> list_all (\<lambda>(k, v). 0 < v) kvs \<Longrightarrow> 0 < sum_list (map snd kvs :: rat list)"
proof (induction kvs)
  case Nil
  then show ?case by simp
next
  case (Cons kv kvs)
  then show ?case by (cases "kvs = []") (auto simp: add_pos_pos)
qed

lemma adjust_sum:
  assumes "distinct (map fst priorities)"
    and "active \<noteq> []"
    and "set active \<subseteq> set priorities"
  shows "sum_list (map (\<lambda>(k, v). adjust B priorities active a k) priorities) = B"
proof -
  obtain k0 v0 rest where act: "active = (k0, v0) # rest"
    using assms(2) by (cases active) auto
  let ?m = "max_key_from k0 v0 rest"
  let ?adj = "B - sum_list (map (\<lambda>(k, v). a k) priorities)"
  have eq: "\<And>f. map (\<lambda>(k, v). f k) priorities = map f (map fst priorities)"
    by (simp add: case_prod_beta)
  have "?m \<in> set (map fst active)"
    unfolding act by (rule max_key_from_mem)
  then have m: "?m \<in> set (map fst priorities)"
    using assms(3) by auto
  have adj: "?adj = B - sum_list (map a (map fst priorities))"
    by (simp only: eq)
  show ?thesis
  proof (cases "?adj = 0")
    case True
    then have "adjust B priorities active a = a"
      by (simp add: adjust_def act)
    then have "sum_list (map (\<lambda>(k, v). adjust B priorities active a k) priorities) =
        sum_list (map (\<lambda>(k, v). a k) priorities)"
      by simp
    with True show ?thesis by simp
  next
    case False
    then have "adjust B priorities active a = a(?m := a ?m + ?adj)"
      by (simp add: adjust_def act Let_def)
    then have "sum_list (map (\<lambda>(k, v). adjust B priorities active a k) priorities) =
        sum_list (map (\<lambda>(k, v). (a(?m := a ?m + ?adj)) k) priorities)"
      by simp
    also have "\<dots> = sum_list (map (a(?m := a ?m + ?adj)) (map fst priorities))"
      by (simp only: eq)
    also have "\<dots> = sum_list (map a (map fst priorities)) + ?adj"
      by (rule sum_list_update [OF assms(1) m])
    also have "\<dots> = B"
      by (simp only: adj)
    finally show ?thesis .
  qed
qed

lemma enforce_caps_no_clip:
  "list_all (\<lambda>k. a k \<le> t k) ks \<Longrightarrow> enforce_caps act t ks a = Inr a"
  by (induction ks) (auto simp: Let_def)

lemma active_of_subset: "set (active_of priorities t) \<subseteq> set priorities"
  by (auto simp: active_of_def)

text \<open>
  Claim C2, as amended. For a priority dictionary whose weights are all strictly positive
  and initial token counts of which at least one is positive: normalisation, proportional
  pass and rounding adjustment return an allocation, and when this allocation is at most
  the initial tokens at every source (no source is cap-constrained), \<^verbatim>\<open>_allocate_tokens\<close>
  returns it unchanged and its values sum exactly to the budget.
\<close>

theorem allocate_tokens_sum:
  assumes keys: "distinct (map fst priorities)"
    and present: "list_all (\<lambda>(k, v). initial_tokens k \<noteq> None) priorities"
    and positive: "list_all (\<lambda>(k, v). 0 < v) priorities"
    and content: "active_of priorities (\<lambda>k. the (initial_tokens k)) \<noteq> []"
  shows "\<exists>allocation.
           first_pass B priorities (active_of priorities (\<lambda>k. the (initial_tokens k))) =
             Inr allocation
           \<and> (list_all (\<lambda>(k, v). allocation k \<le> the (initial_tokens k)) priorities \<longrightarrow>
                allocate_tokens B priorities initial_tokens =
                  Inr (map (\<lambda>(k, v). (k, allocation k)) priorities)
                \<and> sum_list (map snd (map (\<lambda>(k, v). (k, allocation k)) priorities)) = B)"
proof -
  let ?t = "\<lambda>k. the (initial_tokens k)"
  let ?act = "active_of priorities ?t"
  let ?total = "sum_list (map snd ?act)"
  have sub: "set ?act \<subseteq> set priorities" by (rule active_of_subset)
  have "list_all (\<lambda>(k, v). 0 < v) ?act"
    using positive sub by (auto simp: list_all_iff)
  with content have "0 < ?total" by (rule sum_list_pos)
  then have norm: "normalize ?total ?act = Inr (map (\<lambda>(k, v). (k, v / ?total)) ?act)"
    by (simp add: normalize_ok)
  let ?a = "adjust B priorities ?act (proportional B (map (\<lambda>(k, v). (k, v / ?total)) ?act))"
  have fp: "first_pass B priorities ?act = Inr ?a"
    by (simp add: first_pass_def norm)
  have sum: "sum_list (map (\<lambda>(k, v). ?a k) priorities) = B"
    using keys content sub by (rule adjust_sum)
  have nokey: "\<not> list_ex (\<lambda>(k, v). initial_tokens k = None) priorities"
    using present by (auto simp: list_all_iff list_ex_iff)
  have "allocate_tokens B priorities initial_tokens =
          Inr (map (\<lambda>(k, v). (k, ?a k)) priorities)
        \<and> sum_list (map snd (map (\<lambda>(k, v). (k, ?a k)) priorities)) = B"
    if caps: "list_all (\<lambda>(k, v). ?a k \<le> ?t k) priorities"
  proof -
    from caps have "list_all (\<lambda>k. ?a k \<le> ?t k) (map fst priorities)"
      by (auto simp: list_all_iff)
    then have "enforce_caps ?act ?t (map fst priorities) ?a = Inr ?a"
      by (rule enforce_caps_no_clip)
    then have "allocate_tokens B priorities initial_tokens =
          Inr (map (\<lambda>(k, v). (k, ?a k)) priorities)"
      using nokey content fp by (simp add: allocate_tokens_def allocate_def Let_def)
    moreover have "sum_list (map snd (map (\<lambda>(k, v). (k, ?a k)) priorities)) = B"
      using sum by (simp add: case_prod_unfold o_def)
    ultimately show ?thesis by blast
  qed
  with fp show ?thesis by blast
qed

theorem allocate_tokens_sum_witness:
  "distinct (map fst even_priorities)
   \<and> list_all (\<lambda>(k, v). initial_tokens_of 8000 5000 2000 2000 2000 k \<noteq> None) even_priorities
   \<and> list_all (\<lambda>(k, v). 0 < v) even_priorities
   \<and> active_of even_priorities (\<lambda>k. the (initial_tokens_of 8000 5000 2000 2000 2000 k)) \<noteq> []
   \<and> allocate_tokens 6000 even_priorities (initial_tokens_of 8000 5000 2000 2000 2000) =
      Inr [(''chunks'', 2400), (''product_guidelines'', 1800), (''design_guidelines'', 600),
           (''benchmarks'', 600), (''team_objectives'', 600)]
   \<and> sum_list (map snd [(''chunks'', 2400 :: int), (''product_guidelines'', 1800),
         (''design_guidelines'', 600), (''benchmarks'', 600), (''team_objectives'', 600)]) = 6000"
proof -
  let ?t = "initial_tokens_of 8000 5000 2000 2000 2000"
  have h1: "distinct (map fst even_priorities)"
    by (simp add: even_priorities_def)
  have h2: "list_all (\<lambda>(k, v). ?t k \<noteq> None) even_priorities"
    by (simp add: even_priorities_def initial_tokens_of_def)
  have h3: "list_all (\<lambda>(k, v). 0 < v) even_priorities"
    by (simp add: even_priorities_def)
  have h4: "active_of even_priorities (\<lambda>k. the (?t k)) \<noteq> []"
    by (simp add: even_priorities_def initial_tokens_of_def active_of_def)
  from allocate_tokens_sum [OF h1 h2 h3 h4, of 6000] obtain allocation where
    fp: "first_pass 6000 even_priorities (active_of even_priorities (\<lambda>k. the (?t k))) =
           Inr allocation"
    and imp: "list_all (\<lambda>(k, v). allocation k \<le> the (?t k)) even_priorities \<longrightarrow>
                allocate_tokens 6000 even_priorities ?t =
                  Inr (map (\<lambda>(k, v). (k, allocation k)) even_priorities)
                \<and> sum_list (map snd (map (\<lambda>(k, v). (k, allocation k)) even_priorities)) = 6000"
    by blast
  have "map_sum id (\<lambda>a. map a (map fst even_priorities))
          (first_pass 6000 even_priorities (active_of even_priorities (\<lambda>k. the (?t k)))) =
        Inr [2400, 1800, 600, 600, 600]"
    by (simp add: even_priorities_def initial_tokens_of_def active_of_def first_pass_def
        adjust_def proportional_def py_div_def py_int_def)
  with fp have vals: "map allocation (map fst even_priorities) = [2400, 1800, 600, 600, 600]"
    by simp
  then have caps: "list_all (\<lambda>(k, v). allocation k \<le> the (?t k)) even_priorities"
    by (simp add: even_priorities_def initial_tokens_of_def)
  from vals have res: "map (\<lambda>(k, v). (k, allocation k)) even_priorities =
      [(''chunks'', 2400), (''product_guidelines'', 1800), (''design_guidelines'', 600),
       (''benchmarks'', 600), (''team_objectives'', 600)]"
    by (simp add: even_priorities_def)
  from imp caps res have "allocate_tokens 6000 even_priorities ?t =
      Inr [(''chunks'', 2400), (''product_guidelines'', 1800), (''design_guidelines'', 600),
           (''benchmarks'', 600), (''team_objectives'', 600)]"
    by simp
  with h1 h2 h3 h4 show ?thesis by simp
qed

text \<open>
  Without a source that has content the sum is not the budget: with positive weights
  and no initial tokens at all, nothing is clipped and the function returns zeros.
\<close>

theorem allocate_tokens_sum_counterexample:
  "list_all (\<lambda>(k, v). 0 < v) even_priorities
   \<and> map_sum id (\<lambda>a. map a (map fst even_priorities))
        (first_pass 6000 even_priorities
           (active_of even_priorities (\<lambda>k. the (initial_tokens_of 0 0 0 0 0 k)))) =
      Inr [0, 0, 0, 0, 0]
   \<and> map (\<lambda>k. the (initial_tokens_of 0 0 0 0 0 k)) (map fst even_priorities) = [0, 0, 0, 0, 0]
   \<and> allocate_tokens 6000 even_priorities (initial_tokens_of 0 0 0 0 0) =
      Inr [(''chunks'', 0), (''product_guidelines'', 0), (''design_guidelines'', 0),
           (''benchmarks'', 0), (''team_objectives'', 0)]
   \<and> sum_list (map snd [(''chunks'', 0 :: int), (''product_guidelines'', 0),
         (''design_guidelines'', 0), (''benchmarks'', 0), (''team_objectives'', 0)]) \<noteq> 6000"
  by (simp add: even_priorities_def initial_tokens_of_def active_of_def first_pass_def
      adjust_def proportional_def allocate_tokens_def allocate_def)

text \<open>
  Claim C1 fails on lines 559 to 582, whose comment promises that no allocation exceeds
  the initial tokens. Budget 6000, the priorities of \<^verbatim>\<open>hypothesis\<close>, initial tokens
  chunks 3100, product_guidelines 100, design_guidelines 5000: the first pass gives 3000,
  1500 and 1500; the loop passes chunks, clips product_guidelines to 100 and shares the
  excess of 1400 between chunks (933, then the rest of 312) and design_guidelines (155),
  so that chunks ends at 4245, above its 3100 initial tokens, and is not visited again.
\<close>

theorem allocate_tokens_exceeds_initial:
  "allocate_tokens 6000 (get_priorities_by_objective ''hypothesis'')
     (initial_tokens_of 3100 100 5000 0 0) =
   Inr [(''chunks'', 4245), (''product_guidelines'', 100), (''design_guidelines'', 1655),
        (''benchmarks'', 0), (''team_objectives'', 0)]
   \<and> initial_tokens_of 3100 100 5000 0 0 ''chunks'' = Some 3100"
  by code_simp

section \<open>Sources of weight zero\<close>

lemma sum_list_all_zero:
  "list_all (\<lambda>(k, v). v = 0) kvs \<Longrightarrow> sum_list (map snd kvs :: rat list) = 0"
  by (induction kvs) auto

lemma sum_list_nonneg:
  "list_all (\<lambda>(k, v). 0 \<le> v) kvs \<Longrightarrow> 0 \<le> sum_list (map snd kvs :: rat list)"
  by (induction kvs) auto

lemma max_key_from_positive:
  assumes nonneg: "list_all (\<lambda>(k, v). 0 \<le> v) ((k0, v0) # rest)"
    and nz: "sum_list (map snd ((k0, v0) # rest)) \<noteq> 0"
  shows "\<exists>w. 0 < w \<and> (max_key_from k0 v0 rest, w) \<in> set ((k0, v0) # rest)"
proof -
  from max_key_from_max [of k0 v0 rest] obtain w where
    mem: "(max_key_from k0 v0 rest, w) \<in> set ((k0, v0) # rest)"
    and top: "\<forall>(k', v') \<in> set ((k0, v0) # rest). v' \<le> w"
    by blast
  have "0 < w"
  proof (rule ccontr)
    assume "\<not> 0 < w"
    then have "w \<le> 0" by simp
    with top nonneg have "list_all (\<lambda>(k, v). v = 0) ((k0, v0) # rest)"
      by (fastforce simp: list_all_iff)
    then have "sum_list (map snd ((k0, v0) # rest)) = 0"
      by (rule sum_list_all_zero)
    with nz show False by simp
  qed
  with mem show ?thesis by blast
qed

lemma weight_unique:
  "distinct (map fst priorities) \<Longrightarrow> (k, v) \<in> set priorities \<Longrightarrow> (k, w) \<in> set priorities \<Longrightarrow>
   v = w"
  by (rule eq_key_imp_eq_value)

lemma map_of_normalized:
  "map_of (map (\<lambda>(k, v). (k, v / tot)) kvs) k = map_option (\<lambda>v. v / tot) (map_of kvs k)"
  by (induction kvs) auto

lemma proportional_zero_weight:
  assumes "distinct (map fst priorities)"
    and "set act \<subseteq> set priorities"
    and "(k, 0) \<in> set priorities"
  shows "proportional B (map (\<lambda>(k, v). (k, v / tot)) act) k = 0"
proof (cases "map_of act k")
  case None
  then show ?thesis by (simp add: proportional_def map_of_normalized)
next
  case (Some v)
  then have "(k, v) \<in> set act" by (rule map_of_SomeD)
  with assms(2) have "(k, v) \<in> set priorities" by blast
  with assms(1,3) have "v = 0"
    using weight_unique [of priorities k v 0] by simp
  with Some show ?thesis by (simp add: proportional_def map_of_normalized py_int_def)
qed

lemma adjust_zero_weight:
  assumes keys: "distinct (map fst priorities)"
    and nonneg: "list_all (\<lambda>(k, v). 0 \<le> v) priorities"
    and sub: "set act \<subseteq> set priorities"
    and nz: "sum_list (map snd act) \<noteq> 0"
    and zero: "(k, 0) \<in> set priorities"
    and a: "a k = 0"
  shows "adjust B priorities act a k = 0"
proof (cases act)
  case Nil
  with a show ?thesis by (simp add: adjust_def)
next
  case (Cons kv rest)
  obtain k0 v0 where kv: "kv = (k0, v0)" by (cases kv)
  have "list_all (\<lambda>(k, v). 0 \<le> v) act"
    using nonneg sub by (auto simp: list_all_iff)
  with nz Cons kv obtain w where w: "0 < w" "(max_key_from k0 v0 rest, w) \<in> set act"
    using max_key_from_positive [of k0 v0 rest] by auto
  with sub have "(max_key_from k0 v0 rest, w) \<in> set priorities" by blast
  with keys zero w(1) have "max_key_from k0 v0 rest \<noteq> k"
    using weight_unique [of priorities k 0 w] by auto
  with a Cons kv show ?thesis by (simp add: adjust_def Let_def)
qed

lemma distribute_total_nonzero:
  "distribute tot cs a e = Inr r \<Longrightarrow> cs \<noteq> [] \<Longrightarrow> tot \<noteq> 0"
  by (cases cs) (auto simp: py_div_def split: if_splits)

lemma distribute_zero_weight:
  assumes keys: "distinct (map fst priorities)"
    and zero: "(k, 0) \<in> set priorities"
  shows "set cs \<subseteq> set priorities \<Longrightarrow> distribute tot cs a e = Inr (a', e') \<Longrightarrow> a k = 0 \<Longrightarrow>
         a' k = 0"
proof (induction cs arbitrary: a e)
  case Nil
  then show ?case by simp
next
  case (Cons c cs)
  obtain candidate priority where c: "c = (candidate, priority)" by (cases c)
  from Cons.prems(2) c have tot: "tot \<noteq> 0"
    by (auto simp: py_div_def split: if_splits)
  let ?share = "py_int (priority / tot * of_int e)"
  from Cons.prems(2) c tot have rec:
    "distribute tot cs (a(candidate := a candidate + ?share)) (e - ?share) = Inr (a', e')"
    by (simp add: py_div_def Let_def)
  have "(a(candidate := a candidate + ?share)) k = 0"
  proof (cases "candidate = k")
    case True
    with Cons.prems(1) c have "(k, priority) \<in> set priorities" by simp
    with keys zero have "priority = 0"
      using weight_unique [of priorities k priority 0] by simp
    with True Cons.prems(3) show ?thesis by (simp add: py_int_def)
  next
    case False
    with Cons.prems(3) show ?thesis by simp
  qed
  moreover from Cons.prems(1) have "set cs \<subseteq> set priorities" by simp
  ultimately show ?case using rec Cons.IH by blast
qed

lemma candidates_of_subset: "set (candidates_of act t s a) \<subseteq> set act"
  by (auto simp: candidates_of_def)

lemma redistribute_zero_weight:
  assumes keys: "distinct (map fst priorities)"
    and nonneg: "list_all (\<lambda>(k, v). 0 \<le> v) priorities"
    and sub: "set act \<subseteq> set priorities"
    and zero: "(k, 0) \<in> set priorities"
    and red: "redistribute act t s a e = Inr a'"
    and a: "a k = 0"
  shows "a' k = 0"
proof (cases "candidates_of act t s a")
  case Nil
  with red a show ?thesis by (simp add: redistribute_def)
next
  case (Cons kv rest)
  obtain k0 v0 where kv: "kv = (k0, v0)" by (cases kv)
  let ?cands = "(k0, v0) # rest"
  have cs: "set ?cands \<subseteq> set priorities"
    using candidates_of_subset [of act t s a] sub Cons kv by auto
  from red Cons kv obtain a1 e1 where
    d: "distribute (sum_list (map snd ?cands)) ?cands a e = Inr (a1, e1)"
    by (auto simp: redistribute_def split: sum.splits)
  from keys zero cs d a have a1: "a1 k = 0"
    by (rule distribute_zero_weight)
  from d have nz: "sum_list (map snd ?cands) \<noteq> 0"
    by (rule distribute_total_nonzero) simp
  show ?thesis
  proof (cases "0 < e1")
    case False
    with red Cons kv d a1 show ?thesis by (simp add: redistribute_def)
  next
    case True
    have "list_all (\<lambda>(k, v). 0 \<le> v) ?cands"
      using nonneg cs by (auto simp: list_all_iff)
    with nz obtain w where w: "0 < w" "(max_key_from k0 v0 rest, w) \<in> set ?cands"
      using max_key_from_positive [of k0 v0 rest] by blast
    with cs have "(max_key_from k0 v0 rest, w) \<in> set priorities" by blast
    with keys zero w(1) have "max_key_from k0 v0 rest \<noteq> k"
      using weight_unique [of priorities k 0 w] by auto
    with red Cons kv d a1 True show ?thesis by (auto simp: redistribute_def Let_def)
  qed
qed

lemma enforce_caps_zero_weight:
  assumes keys: "distinct (map fst priorities)"
    and nonneg: "list_all (\<lambda>(k, v). 0 \<le> v) priorities"
    and sub: "set act \<subseteq> set priorities"
    and zero: "(k, 0) \<in> set priorities"
    and tk: "0 \<le> t k"
  shows "enforce_caps act t ks a = Inr a' \<Longrightarrow> a k = 0 \<Longrightarrow> a' k = 0"
proof (induction ks arbitrary: a)
  case Nil
  then show ?case by simp
next
  case (Cons s ks)
  show ?case
  proof (cases "t s < a s")
    case False
    with Cons show ?thesis by (simp add: Let_def)
  next
    case True
    with Cons.prems(1) obtain a1 where
      red: "redistribute act t s (a(s := t s)) (a s - t s) = Inr a1"
      and rest: "enforce_caps act t ks a1 = Inr a'"
      by (auto simp: Let_def split: sum.splits)
    from True tk Cons.prems(2) have "s \<noteq> k" by auto
    with Cons.prems(2) have "(a(s := t s)) k = 0" by simp
    with keys nonneg sub zero red have "a1 k = 0"
      by (rule redistribute_zero_weight)
    with rest show ?thesis by (rule Cons.IH)
  qed
qed

lemma map_of_allocation:
  "(k, v) \<in> set priorities \<Longrightarrow> map_of (map (\<lambda>(k, v). (k, f k)) priorities) k = Some (f k)"
  by (induction priorities) auto

text \<open>
  Claim C5. For a priority dictionary with non-negative weights and non-negative initial
  token counts: whenever \<^verbatim>\<open>_allocate_tokens\<close> returns, a source whose weight is 0 has
  allocation 0 in the result, whatever its initial tokens. The proportional pass gives
  it 0, the rounding adjustment and the remainder of a redistribution go to a source of
  largest weight, which is positive when the function returns, and its proportional
  share of any excess is 0.
\<close>

theorem allocate_tokens_zero_weight:
  assumes keys: "distinct (map fst priorities)"
    and nonneg: "list_all (\<lambda>(k, v). 0 \<le> v) priorities"
    and counts: "\<forall>k n. initial_tokens k = Some n \<longrightarrow> 0 \<le> n"
    and returns: "allocate_tokens B priorities initial_tokens = Inr result"
    and zero: "(k, 0) \<in> set priorities"
  shows "map_of result k = Some 0"
proof -
  let ?t = "\<lambda>k. the (initial_tokens k)"
  let ?act = "active_of priorities ?t"
  have sub: "set ?act \<subseteq> set priorities" by (auto simp: active_of_def)
  from returns have present: "\<not> list_ex (\<lambda>(k, v). initial_tokens k = None) priorities"
    by (auto simp: allocate_tokens_def split: if_splits)
  with returns have alloc: "allocate B priorities ?t = Inr result"
    by (simp add: allocate_tokens_def)
  from present zero obtain n where "initial_tokens k = Some n"
    by (fastforce simp: list_ex_iff)
  with counts have tk: "0 \<le> ?t k" by auto
  show ?thesis
  proof (cases "?act = []")
    case True
    with alloc have "result = map (\<lambda>(k, v). (k, 0)) priorities"
      by (simp add: allocate_def)
    with zero show ?thesis
      using map_of_allocation [of k 0 priorities "\<lambda>k. 0 :: int"] by simp
  next
    case False
    let ?tot = "sum_list (map snd ?act)"
    from alloc False obtain a0 a1 where
      fp: "first_pass B priorities ?act = Inr a0"
      and ec: "enforce_caps ?act ?t (map fst priorities) a0 = Inr a1"
      and res: "result = map (\<lambda>(k, v). (k, a1 k)) priorities"
      by (auto simp: allocate_def Let_def split: sum.splits)
    have nz: "?tot \<noteq> 0"
    proof
      assume "?tot = 0"
      with False have "normalize ?tot ?act = Inl ZeroDivisionError"
        by (simp add: normalize_zero)
      with fp show False by (simp add: first_pass_def)
    qed
    then have "normalize ?tot ?act = Inr (map (\<lambda>(k, v). (k, v / ?tot)) ?act)"
      by (rule normalize_ok)
    with fp have a0: "a0 = adjust B priorities ?act
        (proportional B (map (\<lambda>(k, v). (k, v / ?tot)) ?act))"
      by (simp add: first_pass_def)
    have "proportional B (map (\<lambda>(k, v). (k, v / ?tot)) ?act) k = 0"
      using keys sub zero by (rule proportional_zero_weight)
    with keys nonneg sub nz zero have "a0 k = 0"
      unfolding a0 by (rule adjust_zero_weight)
    with keys nonneg sub zero tk ec have "a1 k = 0"
      by (rule enforce_caps_zero_weight)
    with res zero show ?thesis
      using map_of_allocation [of k 0 priorities a1] by simp
  qed
qed

theorem allocate_tokens_zero_weight_witness:
  "allocate_tokens 6000 informative_priorities (initial_tokens_of 8000 500 3000 0 0) =
     Inr [(''chunks'', 5500), (''product_guidelines'', 500), (''design_guidelines'', 0),
          (''benchmarks'', 0), (''team_objectives'', 0)]
   \<and> (''design_guidelines'', 0) \<in> set informative_priorities
   \<and> initial_tokens_of 8000 500 3000 0 0 ''design_guidelines'' = Some 3000
   \<and> map_of [(''chunks'', 5500 :: int), (''product_guidelines'', 500), (''design_guidelines'', 0),
          (''benchmarks'', 0), (''team_objectives'', 0)] ''design_guidelines'' = Some 0"
proof -
  let ?t = "initial_tokens_of 8000 500 3000 0 0"
  let ?r = "[(''chunks'', 5500 :: int), (''product_guidelines'', 500), (''design_guidelines'', 0),
          (''benchmarks'', 0), (''team_objectives'', 0)]"
  have h1: "distinct (map fst informative_priorities)"
    by (simp add: informative_priorities_def)
  have h2: "list_all (\<lambda>(k, v). 0 \<le> v) informative_priorities"
    by (simp add: informative_priorities_def)
  have h3: "\<forall>k n. ?t k = Some n \<longrightarrow> 0 \<le> n"
    by (auto simp: initial_tokens_of_def split: if_splits)
  have h4: "allocate_tokens 6000 informative_priorities ?t = Inr ?r"
    by code_simp
  have h5: "(''design_guidelines'', 0) \<in> set informative_priorities"
    by (simp add: informative_priorities_def)
  have h6: "?t ''design_guidelines'' = Some 3000"
    by (simp add: initial_tokens_of_def)
  from allocate_tokens_zero_weight [OF h1 h2 h3 h4 h5] h4 h5 h6 show ?thesis
    by simp
qed

section \<open>Division by zero in the allocator\<close>

lemma enforce_caps_append:
  "enforce_caps act t (ks1 @ ks2) a =
     (case enforce_caps act t ks1 a of Inl e \<Rightarrow> Inl e | Inr a1 \<Rightarrow> enforce_caps act t ks2 a1)"
  by (induction ks1 arbitrary: a) (auto simp: Let_def split: sum.splits)

lemma redistribute_zero:
  assumes "candidates_of act t s a \<noteq> []"
    and "sum_list (map snd (candidates_of act t s a)) = 0"
  shows "redistribute act t s a e = Inl ZeroDivisionError"
proof -
  from assms(1) obtain k0 v0 rest where c: "candidates_of act t s a = (k0, v0) # rest"
    by (cases "candidates_of act t s a") auto
  with assms(2) have "distribute (sum_list (map snd ((k0, v0) # rest))) ((k0, v0) # rest) a e =
      Inl ZeroDivisionError"
    using distribute_zero [of "(k0, v0) # rest" a e] by simp
  with c show ?thesis by (simp add: redistribute_def)
qed

lemma allocate_zero_total:
  assumes present: "\<not> list_ex (\<lambda>(k, v). initial_tokens k = None) priorities"
    and content: "active_of priorities (\<lambda>k. the (initial_tokens k)) \<noteq> []"
    and zero: "sum_list (map snd (active_of priorities (\<lambda>k. the (initial_tokens k)))) = 0"
  shows "allocate_tokens B priorities initial_tokens = Inl ZeroDivisionError"
proof -
  let ?act = "active_of priorities (\<lambda>k. the (initial_tokens k))"
  from content zero have "normalize (sum_list (map snd ?act)) ?act = Inl ZeroDivisionError"
    by (simp add: normalize_zero)
  then have "first_pass B priorities ?act = Inl ZeroDivisionError"
    by (simp add: first_pass_def)
  with present content show ?thesis
    by (simp add: allocate_tokens_def allocate_def Let_def)
qed

lemma enforce_caps_zero_candidates:
  assumes before: "enforce_caps act t before a = Inr a1"
    and clip: "t s < a1 s"
    and cands: "candidates_of act t s (a1(s := t s)) \<noteq> []"
    and zero: "sum_list (map snd (candidates_of act t s (a1(s := t s)))) = 0"
  shows "enforce_caps act t (before @ s # after) a = Inl ZeroDivisionError"
proof -
  from cands zero have "redistribute act t s (a1(s := t s)) (a1 s - t s) = Inl ZeroDivisionError"
    by (rule redistribute_zero)
  with clip have "enforce_caps act t (s # after) a1 = Inl ZeroDivisionError"
    by (simp add: Let_def)
  with before show ?thesis by (simp add: enforce_caps_append)
qed

text \<open>
  Claim C6. \<^verbatim>\<open>_allocate_tokens\<close> raises \<^verbatim>\<open>ZeroDivisionError\<close> on some inputs. When some
  source has positive initial tokens and every such source has weight 0, the
  normalisation divides by the zero sum of the active weights. When the cap loop clips
  a source whose candidates for the excess are not empty and all have weight 0, the
  proportional share divides by the zero sum of the candidate weights, at whatever
  iteration of the loop this happens. Conversely, with non-negative weights, a call
  that returns had a positive sum of active weights when it normalised, and a run of the
  cap loop that returns had a positive sum of candidate weights at every clipped source
  with candidates. Both failures occur with the priorities of \<^verbatim>\<open>hypothesis\<close>, whose
  benchmarks have weight 0: with content in benchmarks only, and with chunks 2000,
  guidelines 100 and 100, benchmarks 5000.
\<close>

theorem allocate_tokens_division_by_zero:
  "(\<not> list_ex (\<lambda>(k, v). initial_tokens k = None) priorities
      \<and> active_of priorities (\<lambda>k. the (initial_tokens k)) \<noteq> []
      \<and> list_all (\<lambda>(k, v). v = 0) (active_of priorities (\<lambda>k. the (initial_tokens k)))
     \<longrightarrow> allocate_tokens B priorities initial_tokens = Inl ZeroDivisionError)
   \<and> (enforce_caps act t before a = Inr a1 \<and> t s < a1 s
      \<and> candidates_of act t s (a1(s := t s)) \<noteq> []
      \<and> list_all (\<lambda>(k, v). v = 0) (candidates_of act t s (a1(s := t s)))
     \<longrightarrow> enforce_caps act t (before @ s # after) a = Inl ZeroDivisionError)
   \<and> (list_all (\<lambda>(k, v). 0 \<le> v) priorities
      \<and> allocate_tokens B priorities initial_tokens = Inr result
      \<and> active_of priorities (\<lambda>k. the (initial_tokens k)) \<noteq> []
     \<longrightarrow> 0 < sum_list (map snd (active_of priorities (\<lambda>k. the (initial_tokens k)))))
   \<and> (list_all (\<lambda>(k, v). 0 \<le> v) act
      \<and> enforce_caps act t (before @ s # after) a = Inr a'
      \<and> enforce_caps act t before a = Inr a1 \<and> t s < a1 s
      \<and> candidates_of act t s (a1(s := t s)) \<noteq> []
     \<longrightarrow> 0 < sum_list (map snd (candidates_of act t s (a1(s := t s)))))
   \<and> allocate_tokens 6000 (get_priorities_by_objective ''hypothesis'')
        (initial_tokens_of 0 0 0 7000 0) = Inl ZeroDivisionError
   \<and> allocate_tokens 6000 (get_priorities_by_objective ''hypothesis'')
        (initial_tokens_of 2000 100 100 5000 0) = Inl ZeroDivisionError"
proof -
  let ?act = "active_of priorities (\<lambda>k. the (initial_tokens k))"
  let ?cands = "candidates_of act t s (a1(s := t s))"
  have c1: "allocate_tokens B priorities initial_tokens = Inl ZeroDivisionError"
    if "\<not> list_ex (\<lambda>(k, v). initial_tokens k = None) priorities" "?act \<noteq> []"
      "list_all (\<lambda>(k, v). v = 0) ?act"
    using that by (simp add: allocate_zero_total sum_list_all_zero)
  have c2: "enforce_caps act t (before @ s # after) a = Inl ZeroDivisionError"
    if "enforce_caps act t before a = Inr a1" "t s < a1 s" "?cands \<noteq> []"
      "list_all (\<lambda>(k, v). v = 0) ?cands"
    using that by (simp add: enforce_caps_zero_candidates sum_list_all_zero)
  have c3: "0 < sum_list (map snd ?act)"
    if nonneg: "list_all (\<lambda>(k, v). 0 \<le> v) priorities"
      and ret: "allocate_tokens B priorities initial_tokens = Inr result"
      and content: "?act \<noteq> []"
  proof -
    from ret have present: "\<not> list_ex (\<lambda>(k, v). initial_tokens k = None) priorities"
      by (auto simp: allocate_tokens_def split: if_splits)
    have "sum_list (map snd ?act) \<noteq> 0"
    proof
      assume "sum_list (map snd ?act) = 0"
      with present content have "allocate_tokens B priorities initial_tokens = Inl ZeroDivisionError"
        by (rule allocate_zero_total)
      with ret show False by simp
    qed
    moreover have "list_all (\<lambda>(k, v). 0 \<le> v) ?act"
      using nonneg by (auto simp: active_of_def list_all_iff)
    then have "0 \<le> sum_list (map snd ?act)" by (rule sum_list_nonneg)
    ultimately show ?thesis by simp
  qed
  have c4: "0 < sum_list (map snd ?cands)"
    if nonneg: "list_all (\<lambda>(k, v). 0 \<le> v) act"
      and ret: "enforce_caps act t (before @ s # after) a = Inr a'"
      and before: "enforce_caps act t before a = Inr a1"
      and clip: "t s < a1 s"
      and cands: "?cands \<noteq> []"
  proof -
    have "sum_list (map snd ?cands) \<noteq> 0"
    proof
      assume "sum_list (map snd ?cands) = 0"
      with before clip cands
      have "enforce_caps act t (before @ s # after) a = Inl ZeroDivisionError"
        by (rule enforce_caps_zero_candidates)
      with ret show False by simp
    qed
    moreover have "list_all (\<lambda>(k, v). 0 \<le> v) ?cands"
      using nonneg by (auto simp: candidates_of_def list_all_iff)
    then have "0 \<le> sum_list (map snd ?cands)" by (rule sum_list_nonneg)
    ultimately show ?thesis by simp
  qed
  have e1: "allocate_tokens 6000 (get_priorities_by_objective ''hypothesis'')
        (initial_tokens_of 0 0 0 7000 0) = Inl ZeroDivisionError"
    by code_simp
  have e2: "allocate_tokens 6000 (get_priorities_by_objective ''hypothesis'')
        (initial_tokens_of 2000 100 100 5000 0) = Inl ZeroDivisionError"
    by code_simp
  show ?thesis
    using c1 c2 c3 c4 e1 e2 by blast
qed

theorem allocate_tokens_division_by_zero_witness:
  "active_of (get_priorities_by_objective ''hypothesis'')
       (\<lambda>k. the (initial_tokens_of 0 0 0 7000 0 k)) = [(''benchmarks'', 0)]
   \<and> allocate_tokens 6000 (get_priorities_by_objective ''hypothesis'')
       (initial_tokens_of 0 0 0 7000 0) = Inl ZeroDivisionError
   \<and> candidates_of
        [(''chunks'', 1 / 2), (''product_guidelines'', 1 / 4), (''design_guidelines'', 1 / 4),
         (''benchmarks'', 0)]
        (\<lambda>k. the (initial_tokens_of 2000 100 100 5000 0 k)) ''chunks''
        ((\<lambda>k. 0)(''chunks'' := 2000, ''product_guidelines'' := 1500,
           ''design_guidelines'' := 1500)) = [(''benchmarks'', 0)]
   \<and> enforce_caps
        [(''chunks'', 1 / 2), (''product_guidelines'', 1 / 4), (''design_guidelines'', 1 / 4),
         (''benchmarks'', 0)]
        (\<lambda>k. the (initial_tokens_of 2000 100 100 5000 0 k))
        ([] @ ''chunks'' # [''product_guidelines'', ''design_guidelines'', ''benchmarks'',
           ''team_objectives''])
        ((\<lambda>k. 0)(''chunks'' := 3000, ''product_guidelines'' := 1500,
           ''design_guidelines'' := 1500)) = Inl ZeroDivisionError
   \<and> 0 < sum_list (map snd (active_of informative_priorities
           (\<lambda>k. the (initial_tokens_of 8000 500 0 0 0 k))))
   \<and> 0 < sum_list (map snd (candidates_of
           [(''chunks'', 85 / 100), (''product_guidelines'', 15 / 100)]
           (\<lambda>k. the (initial_tokens_of 8000 500 0 0 0 k)) ''product_guidelines''
           ((\<lambda>k. 0)(''chunks'' := 5100, ''product_guidelines'' := 500))))"
proof -
  let ?hyp = "get_priorities_by_objective ''hypothesis''"
  let ?t1 = "initial_tokens_of 0 0 0 7000 0"
  have a1: "\<not> list_ex (\<lambda>(k, v). ?t1 k = None) ?hyp"
    by (simp add: get_priorities_by_objective_def initial_tokens_of_def)
  have a2: "active_of ?hyp (\<lambda>k. the (?t1 k)) = [(''benchmarks'', 0)]"
    by (simp add: get_priorities_by_objective_def initial_tokens_of_def active_of_def)
  have r1: "allocate_tokens 6000 ?hyp ?t1 = Inl ZeroDivisionError"
    using a1 a2
      allocate_tokens_division_by_zero
        [where priorities = ?hyp and initial_tokens = ?t1 and B = 6000]
    by simp
  let ?act = "[(''chunks'', 1 / 2), (''product_guidelines'', 1 / 4),
      (''design_guidelines'', 1 / 4), (''benchmarks'', 0 :: rat)]"
  let ?t2 = "\<lambda>k. the (initial_tokens_of 2000 100 100 5000 0 k)"
  let ?a = "(\<lambda>k. 0 :: int)(''chunks'' := 3000, ''product_guidelines'' := 1500,
      ''design_guidelines'' := 1500)"
  have upd: "?a(''chunks'' := ?t2 ''chunks'') =
      (\<lambda>k. 0)(''chunks'' := 2000, ''product_guidelines'' := 1500, ''design_guidelines'' := 1500)"
    by (auto simp: initial_tokens_of_def)
  have b1: "enforce_caps ?act ?t2 [] ?a = Inr ?a" by simp
  have b2: "?t2 ''chunks'' < ?a ''chunks''" by (simp add: initial_tokens_of_def)
  have b3: "candidates_of ?act ?t2 ''chunks'' (?a(''chunks'' := ?t2 ''chunks'')) =
      [(''benchmarks'', 0)]"
    by (simp add: candidates_of_def initial_tokens_of_def)
  have r2: "enforce_caps ?act ?t2
        ([] @ ''chunks'' # [''product_guidelines'', ''design_guidelines'', ''benchmarks'',
           ''team_objectives'']) ?a = Inl ZeroDivisionError"
    using b1 b2 b3
      allocate_tokens_division_by_zero
        [where act = ?act and t = ?t2 and before = "[]" and a = ?a and ?a1.0 = ?a
           and s = "''chunks''"
           and after = "[''product_guidelines'', ''design_guidelines'', ''benchmarks'',
             ''team_objectives'']"]
    by simp
  let ?t3 = "initial_tokens_of 8000 500 0 0 0"
  have c1: "list_all (\<lambda>(k, v). 0 \<le> v) informative_priorities"
    by (simp add: informative_priorities_def)
  have c2: "allocate_tokens 6000 informative_priorities ?t3 =
      Inr [(''chunks'', 5500), (''product_guidelines'', 500), (''design_guidelines'', 0),
           (''benchmarks'', 0), (''team_objectives'', 0)]"
    by code_simp
  have c3: "active_of informative_priorities (\<lambda>k. the (?t3 k)) \<noteq> []"
    by (simp add: informative_priorities_def initial_tokens_of_def active_of_def)
  have r3: "0 < sum_list (map snd (active_of informative_priorities (\<lambda>k. the (?t3 k))))"
    using c1 c2 c3
      allocate_tokens_division_by_zero
        [where priorities = informative_priorities and initial_tokens = ?t3 and B = 6000
           and result = "[(''chunks'', 5500), (''product_guidelines'', 500),
             (''design_guidelines'', 0), (''benchmarks'', 0), (''team_objectives'', 0)]"]
    by blast
  let ?act4 = "[(''chunks'', 85 / 100), (''product_guidelines'', 15 / 100 :: rat)]"
  let ?t4 = "\<lambda>k. the (?t3 k)"
  let ?a4 = "(\<lambda>k. 0 :: int)(''chunks'' := 5100, ''product_guidelines'' := 900)"
  let ?r4 = "(\<lambda>k. 0 :: int)(''chunks'' := 5500, ''product_guidelines'' := 500)"
  have upd4: "?a4(''product_guidelines'' := ?t4 ''product_guidelines'') =
      (\<lambda>k. 0)(''chunks'' := 5100, ''product_guidelines'' := 500)"
    by (auto simp: initial_tokens_of_def)
  have d1: "list_all (\<lambda>(k, v). 0 \<le> v) ?act4" by simp
  have d3: "enforce_caps ?act4 ?t4 [''chunks''] ?a4 = Inr ?a4"
    by (simp add: initial_tokens_of_def)
  have d4: "?t4 ''product_guidelines'' < ?a4 ''product_guidelines''"
    by (simp add: initial_tokens_of_def)
  have d5: "candidates_of ?act4 ?t4 ''product_guidelines''
      (?a4(''product_guidelines'' := ?t4 ''product_guidelines'')) = [(''chunks'', 85 / 100)]"
    by (simp add: candidates_of_def initial_tokens_of_def)
  have d2: "\<exists>a'. enforce_caps ?act4 ?t4 ([''chunks''] @ ''product_guidelines'' # []) ?a4 = Inr a'"
    by (simp add: initial_tokens_of_def redistribute_def candidates_of_def py_div_def
        py_int_def Let_def)
  then obtain a' where
    d2': "enforce_caps ?act4 ?t4 ([''chunks''] @ ''product_guidelines'' # []) ?a4 = Inr a'" ..
  have r4: "0 < sum_list (map snd (candidates_of ?act4 ?t4 ''product_guidelines''
      (?a4(''product_guidelines'' := ?t4 ''product_guidelines''))))"
    using d1 d2' d3 d4 d5
      allocate_tokens_division_by_zero
        [where act = ?act4 and t = ?t4 and before = "[''chunks'']" and a = ?a4
           and ?a1.0 = ?a4 and s = "''product_guidelines''" and after = "[]" and a' = a']
    by simp
  show ?thesis
    using a2 r1 b3 r2 r3 r4 unfolding upd upd4 by blast
qed

end
